theory Spec2Isabelle
  imports Complex_Main
begin

section \<open>Conventions\<close>

text \<open>
  The development embeds two classes of the viewer: the navigation plugin
  (\<^verbatim>\<open>MovementPlugin\<close>, in \<^verbatim>\<open>js/viewer/MovementPlugin.js\<close> and its older copy
  \<^verbatim>\<open>js/viewer/movementPlugin.js\<close>) and the rendering adapter (\<^verbatim>\<open>LookaroundAdapter\<close>).

  JavaScript numbers are modelled as \<^typ>\<open>real\<close>: the panorama coordinates, angles and
  texture coordinates are finite numbers and no property below depends on rounding.
  \<^verbatim>\<open>Date.now()\<close> is an integral number of milliseconds and is modelled as \<^typ>\<open>int\<close>;
  zoom levels and face indices are \<^typ>\<open>nat\<close>. \<^verbatim>\<open>undefined\<close> and \<^verbatim>\<open>null\<close> are
  \<^term>\<open>None\<close>. A JavaScript name that starts with underscores loses them
  (\<^verbatim>\<open>_onClick\<close> is \<open>onClick\<close>).

  A handler that can throw returns the exception, if any, together with the state as it
  stands when the handler ends: an exception does not undo the assignments made before it.
\<close>

datatype error = TypeError

section \<open>The navigation plugin\<close>

subsection \<open>Data\<close>

text \<open>
  A panorama as the API returns it. The plugin reads \<^verbatim>\<open>lat\<close>, \<^verbatim>\<open>lon\<close> and
  \<^verbatim>\<open>rawElevation\<close>; the adapter reads \<^verbatim>\<open>projection.latitude_size\<close>.
\<close>

record panorama =
  panoid :: nat
  lat :: real
  lon :: real
  rawElevation :: real
  latitude_size :: "real list"

record sphericalCoords =
  latitude :: real
  longitude :: real

text \<open>The object \<^verbatim>\<open>enuToPhotoSphere\<close> returns.\<close>

record photoSpherePosition =
  yaw :: real
  pitch :: real
  distance :: real

text \<open>An element of \<^verbatim>\<open>this.nearbyPanos\<close>.\<close>

record nearbyPano =
  pano :: panorama
  position :: photoSpherePosition
  scale :: real

text \<open>
  The functions of \<^verbatim>\<open>geo.js\<close>, which is not part of the sources at hand: they are
  parameters of every definition that calls them.
\<close>

record geo =
  geodeticToEnu :: "real \<Rightarrow> real \<Rightarrow> real \<Rightarrow> real \<Rightarrow> real \<Rightarrow> real \<Rightarrow> real \<times> real \<times> real"
  enuToPhotoSphere :: "real \<times> real \<times> real \<Rightarrow> real \<Rightarrow> photoSpherePosition"
  distanceBetween :: "real \<Rightarrow> real \<Rightarrow> real \<Rightarrow> real \<Rightarrow> real \<Rightarrow> real"

text \<open>
  The services of the viewer (\<^verbatim>\<open>this.psv\<close>) the plugin calls, as they stand at the
  moment of an event: \<^verbatim>\<open>dataHelper\<close> and \<^verbatim>\<open>prop.size\<close>. Viewer coordinates are a
  pair \<open>(x, y)\<close>.
\<close>

record psv =
  viewerCoordsToVector3 :: "real \<times> real \<Rightarrow> (real \<times> real \<times> real) option"
  vector3ToSphericalCoords :: "real \<times> real \<times> real \<Rightarrow> sphericalCoords"
  sphericalCoordsToViewerCoords :: "sphericalCoords \<Rightarrow> real \<times> real"
  size_width :: real
  size_height :: real

text \<open>The marker with id \<^verbatim>\<open>MARKER_ID\<close>, as the markers plugin holds it.\<close>

record marker = sphericalCoords +
  width :: real
  height :: real
  visible :: bool
  data :: "panorama option"

text \<open>
  \<^verbatim>\<open>_onClick\<close> is asynchronous: it runs up to \<^verbatim>\<open>await this._navigateTo(pano)\<close>, and
  the rest runs when the viewer has finished the transition. A navigation in flight is
  the target panorama with the part of \<^verbatim>\<open>_onClick\<close> that is still to run.
\<close>

datatype continuation = AfterTap | AfterMarkerClick

record movementPlugin =
  marker :: marker
  lastMousePosition :: "sphericalCoords option"
  mouseHasMoved :: bool
  lastProcessedMoveEvent :: int
  movementEnabled :: bool
  nearbyPanos :: "nearbyPano list option"
  inFlight :: "(panorama \<times> continuation) list"
  moved :: "panorama list"

record mouseEvent =
  now :: int
  clientX :: real
  clientY :: real

record clickData = sphericalCoords +
  rightclick :: bool

definition MAX_DISTANCE :: real where
  "MAX_DISTANCE = 100"

definition CAMERA_HEIGHT :: real where
  "CAMERA_HEIGHT = 2.4"

text \<open>The state the constructor leaves.\<close>

definition constructor :: movementPlugin where
  "constructor =
     \<lparr>marker = \<lparr>latitude = 0, longitude = 0, width = 1, height = 1, visible = False, data = None\<rparr>,
      lastMousePosition = None,
      mouseHasMoved = False,
      lastProcessedMoveEvent = 0,
      movementEnabled = True,
      nearbyPanos = None,
      inFlight = [],
      moved = []\<rparr>"

subsection \<open>updatePanoMarkers\<close>

text \<open>
  The position of a neighbour as the loop body computes it (\<^verbatim>\<open>deltaElevation\<close>,
  \<^verbatim>\<open>enu\<close>, \<^verbatim>\<open>position\<close>), and the loop over \<^verbatim>\<open>responsePanos\<close>, whose last argument
  is \<^verbatim>\<open>this.nearbyPanos\<close> as filled so far. Both copies of the plugin have the same
  loop and differ only in how they fetch \<^verbatim>\<open>responsePanos\<close>.
\<close>

definition relativePosition :: "geo \<Rightarrow> panorama \<Rightarrow> panorama \<Rightarrow> photoSpherePosition" where
  "relativePosition g refPano p =
     (let deltaElevation = (rawElevation p - rawElevation refPano) / 80;
          enu = geodeticToEnu g (lon p) (lat p) deltaElevation
                  (lon refPano) (lat refPano) CAMERA_HEIGHT
      in enuToPhotoSphere g enu 0)"

fun updatePanoMarkers_loop ::
  "geo \<Rightarrow> panorama \<Rightarrow> panorama list \<Rightarrow> nearbyPano list \<Rightarrow> nearbyPano list" where
  "updatePanoMarkers_loop g refPano [] acc = acc"
| "updatePanoMarkers_loop g refPano (p # ps) acc =
     (if lat refPano = lat p \<and> lon refPano = lon p then updatePanoMarkers_loop g refPano ps acc
      else
        let pos = relativePosition g refPano p
        in if distance pos > MAX_DISTANCE then updatePanoMarkers_loop g refPano ps acc
           else updatePanoMarkers_loop g refPano ps
                  (acc @ [\<lparr>pano = p, position = pos,
                           scale = 0.05 + (0.5 - (0.5 * distance pos) / 100)\<rparr>]))"

definition updatePanoMarkers ::
  "geo \<Rightarrow> panorama \<Rightarrow> panorama list \<Rightarrow> movementPlugin \<Rightarrow> movementPlugin" where
  "updatePanoMarkers g refPano responsePanos s =
     s\<lparr>nearbyPanos := Some (updatePanoMarkers_loop g refPano responsePanos [])\<rparr>"

subsection \<open>The marker and the nearest candidate\<close>

definition hideMarker :: "movementPlugin \<Rightarrow> movementPlugin" where
  "hideMarker s = s\<lparr>marker := (marker s)\<lparr>visible := False, data := None\<rparr>\<rparr>"

definition markerPositionIsOffScreen :: "psv \<Rightarrow> photoSpherePosition \<Rightarrow> bool" where
  "markerPositionIsOffScreen v pano_position =
     (let viewerCoords = sphericalCoordsToViewerCoords v
            \<lparr>latitude = pitch pano_position, longitude = yaw pano_position\<rparr>
      in fst viewerCoords > size_width v \<or> fst viewerCoords < 0 \<or>
         snd viewerCoords > size_height v \<or> snd viewerCoords < 0)"

text \<open>
  The loop of \<^verbatim>\<open>_getClosestPano\<close>, with \<^verbatim>\<open>closest\<close> and \<^verbatim>\<open>closestDist\<close> as its last
  arguments. The position is \<^verbatim>\<open>null\<close> when the caller passes a
  \<^verbatim>\<open>lastMousePosition\<close> that was never set; reading \<^verbatim>\<open>position.latitude\<close> then throws.
  The call \<^verbatim>\<open>this.screenFrustum.update()\<close> before the loop writes to the frustum object
  only, which the plugin never reads, and is left out.
\<close>

fun getClosestPano_loop ::
  "psv \<Rightarrow> geo \<Rightarrow> sphericalCoords option \<Rightarrow> nearbyPano list \<Rightarrow> nearbyPano option \<Rightarrow> real
     \<Rightarrow> error + nearbyPano option" where
  "getClosestPano_loop v g pos [] closest closestDist = Inr closest"
| "getClosestPano_loop v g pos (p # ps) closest closestDist =
     (if markerPositionIsOffScreen v (position p)
      then getClosestPano_loop v g pos ps closest closestDist
      else case pos of
          None \<Rightarrow> Inl TypeError
        | Some q \<Rightarrow>
            let d = distanceBetween g (latitude q) (longitude q)
                      (pitch (position p)) (yaw (position p)) 1
            in if d < closestDist then getClosestPano_loop v g pos ps (Some p) d
               else getClosestPano_loop v g pos ps closest closestDist)"

text \<open>Iterating over \<^verbatim>\<open>this.nearbyPanos\<close> while it is still undefined throws.\<close>

definition getClosestPano ::
  "psv \<Rightarrow> geo \<Rightarrow> sphericalCoords option \<Rightarrow> movementPlugin \<Rightarrow> error + nearbyPano option" where
  "getClosestPano v g pos s =
     (case nearbyPanos s of
        None \<Rightarrow> Inl TypeError
      | Some ps \<Rightarrow> getClosestPano_loop v g pos ps None 9999999)"

definition showMarker :: "nearbyPano \<Rightarrow> movementPlugin \<Rightarrow> movementPlugin" where
  "showMarker closest s =
     s\<lparr>marker := (marker s)\<lparr>latitude := pitch (position closest),
                             longitude := yaw (position closest),
                             width := 64 * scale closest,
                             height := 64 * scale closest,
                             visible := True,
                             data := Some (pano closest)\<rparr>\<rparr>"

definition mouseMovedTo ::
  "psv \<Rightarrow> geo \<Rightarrow> sphericalCoords option \<Rightarrow> movementPlugin \<Rightarrow> error option \<times> movementPlugin" where
  "mouseMovedTo v g pos s =
     (if nearbyPanos s = None \<or> \<not> movementEnabled s then (None, s)
      else case getClosestPano v g pos s of
          Inl e \<Rightarrow> (Some e, s)
        | Inr None \<Rightarrow> (None, hideMarker s)
        | Inr (Some closest) \<Rightarrow> (None, showMarker closest s))"

subsection \<open>Pointer moves\<close>

definition updateLimit :: real where
  "updateLimit = 1000 / 60"

text \<open>What \<^verbatim>\<open>_onMouseMove\<close> does once the rate limiter has let the event through.\<close>

definition processMove ::
  "psv \<Rightarrow> geo \<Rightarrow> mouseEvent \<Rightarrow> movementPlugin \<Rightarrow> error option \<times> movementPlugin" where
  "processMove v g e s =
     (let s1 = s\<lparr>lastProcessedMoveEvent := now e\<rparr>
      in case viewerCoordsToVector3 v (clientX e, clientY e) of
          Some vector \<Rightarrow>
            let pos = vector3ToSphericalCoords v vector
            in mouseMovedTo v g (Some pos) (s1\<lparr>lastMousePosition := Some pos\<rparr>)
        | None \<Rightarrow> (None, hideMarker s1))"

text \<open>\<^verbatim>\<open>_onMouseMove\<close> of \<^verbatim>\<open>MovementPlugin.js\<close>: processes when the limit is exceeded.\<close>

definition onMouseMove ::
  "psv \<Rightarrow> geo \<Rightarrow> mouseEvent \<Rightarrow> movementPlugin \<Rightarrow> error option \<times> movementPlugin" where
  "onMouseMove v g e s =
     (let s0 = s\<lparr>mouseHasMoved := True\<rparr>;
          msSinceLastUpdate = now e - lastProcessedMoveEvent s0
      in if real_of_int msSinceLastUpdate > updateLimit then processMove v g e s0
         else (None, s0))"

text \<open>
  \<^verbatim>\<open>_onMouseMove\<close> of \<^verbatim>\<open>movementPlugin.js\<close>: returns early below the limit. What it
  calls is the same code in both files, but for the off-screen test, which the older
  copy writes out inside \<^verbatim>\<open>_getClosestPano\<close>.
\<close>

definition onMouseMove_early ::
  "psv \<Rightarrow> geo \<Rightarrow> mouseEvent \<Rightarrow> movementPlugin \<Rightarrow> error option \<times> movementPlugin" where
  "onMouseMove_early v g e s =
     (let s0 = s\<lparr>mouseHasMoved := True\<rparr>;
          msSinceLastUpdate = now e - lastProcessedMoveEvent s0
      in if real_of_int msSinceLastUpdate < updateLimit then (None, s0)
         else processMove v g e s0)"

text \<open>
  The events each copy processes out of a sequence, in order, and the state the
  sequence leaves. The viewer services are those at the moment of each event.
\<close>

fun processed :: "geo \<Rightarrow> (psv \<times> mouseEvent) list \<Rightarrow> movementPlugin \<Rightarrow> mouseEvent list" where
  "processed g [] s = []"
| "processed g ((v, e) # es) s =
     (if real_of_int (now e - lastProcessedMoveEvent s) > updateLimit then [e] else [])
       @ processed g es (snd (onMouseMove v g e s))"

fun processed_early :: "geo \<Rightarrow> (psv \<times> mouseEvent) list \<Rightarrow> movementPlugin \<Rightarrow> mouseEvent list" where
  "processed_early g [] s = []"
| "processed_early g ((v, e) # es) s =
     (if real_of_int (now e - lastProcessedMoveEvent s) < updateLimit then [] else [e])
       @ processed_early g es (snd (onMouseMove_early v g e s))"

fun mouseMoves :: "geo \<Rightarrow> (psv \<times> mouseEvent) list \<Rightarrow> movementPlugin \<Rightarrow> movementPlugin" where
  "mouseMoves g [] s = s"
| "mouseMoves g ((v, e) # es) s = mouseMoves g es (snd (onMouseMove v g e s))"

fun mouseMoves_early :: "geo \<Rightarrow> (psv \<times> mouseEvent) list \<Rightarrow> movementPlugin \<Rightarrow> movementPlugin" where
  "mouseMoves_early g [] s = s"
| "mouseMoves_early g ((v, e) # es) s = mouseMoves_early g es (snd (onMouseMove_early v g e s))"

subsection \<open>Activation\<close>

text \<open>
  The panorama the marker is bound to, as \<^verbatim>\<open>_onClick\<close> sees it: the test
  \<^verbatim>\<open>!this.marker.visible || !this.marker.data\<close> fails exactly when the marker is visible
  and has data, which the marker branch then reads.
\<close>

definition boundPano :: "movementPlugin \<Rightarrow> panorama option" where
  "boundPano s = (if visible (marker s) then data (marker s) else None)"

text \<open>
  \<^verbatim>\<open>_onClick\<close> up to its \<^verbatim>\<open>await\<close>. In the branch of a tap \<^verbatim>\<open>closest.pano\<close> is
  read without a test of \<^verbatim>\<open>closest\<close>.
\<close>

definition onClick ::
  "psv \<Rightarrow> geo \<Rightarrow> clickData \<Rightarrow> movementPlugin \<Rightarrow> error option \<times> movementPlugin" where
  "onClick v g d s =
     (if rightclick d \<or> \<not> movementEnabled s then (None, s)
      else case boundPano s of
          None \<Rightarrow>
            if mouseHasMoved s then (None, s)
            else (case getClosestPano v g (Some \<lparr>latitude = latitude d, longitude = longitude d\<rparr>) s of
                Inl e \<Rightarrow> (Some e, s)
              | Inr None \<Rightarrow> (Some TypeError, s)
              | Inr (Some closest) \<Rightarrow>
                  (None, s\<lparr>inFlight := inFlight s @ [(pano closest, AfterTap)]\<rparr>))
        | Some p \<Rightarrow>
            let s1 = hideMarker s;
                s2 = s1\<lparr>movementEnabled := False\<rparr>
            in (None, s2\<lparr>inFlight := inFlight s2 @ [(p, AfterMarkerClick)]\<rparr>))"

text \<open>
  The \<open>k\<close>-th navigation in flight completes: \<^verbatim>\<open>_navigateTo\<close> triggers
  \<^verbatim>\<open>moved\<close> and \<^verbatim>\<open>_onClick\<close> runs to its end.
\<close>

definition onClick_resume ::
  "psv \<Rightarrow> geo \<Rightarrow> nat \<Rightarrow> movementPlugin \<Rightarrow> error option \<times> movementPlugin" where
  "onClick_resume v g k s =
     (if k < length (inFlight s) then
        let s1 = s\<lparr>inFlight := take k (inFlight s) @ drop (Suc k) (inFlight s),
                   moved := moved s @ [fst (inFlight s ! k)]\<rparr>
        in case snd (inFlight s ! k) of
            AfterTap \<Rightarrow> (None, s1)
          | AfterMarkerClick \<Rightarrow>
              mouseMovedTo v g (lastMousePosition s1) (s1\<lparr>movementEnabled := True\<rparr>)
      else (None, s))"

text \<open>
  The viewer's \<^verbatim>\<open>navigateTo\<close> rejects: the rest of \<^verbatim>\<open>_onClick\<close> never runs.
\<close>

definition onClick_abandon :: "nat \<Rightarrow> movementPlugin \<Rightarrow> movementPlugin" where
  "onClick_abandon k s =
     (if k < length (inFlight s)
      then s\<lparr>inFlight := take k (inFlight s) @ drop (Suc k) (inFlight s)\<rparr>
      else s)"

subsection \<open>The plugin as an event system\<close>

datatype event =
    MouseMove psv mouseEvent
  | Click psv clickData
  | TransitionDone psv nat
  | TransitionFailed nat
  | PanosFetched panorama "panorama list"

fun fire :: "geo \<Rightarrow> event \<Rightarrow> movementPlugin \<Rightarrow> movementPlugin" where
  "fire g (MouseMove v e) s = snd (onMouseMove v g e s)"
| "fire g (Click v d) s = snd (onClick v g d s)"
| "fire g (TransitionDone v k) s = snd (onClick_resume v g k s)"
| "fire g (TransitionFailed k) s = onClick_abandon k s"
| "fire g (PanosFetched refPano responsePanos) s = updatePanoMarkers g refPano responsePanos s"

fun run :: "geo \<Rightarrow> event list \<Rightarrow> movementPlugin \<Rightarrow> movementPlugin" where
  "run g [] s = s"
| "run g (e # es) s = run g es (fire g e s)"

text \<open>
  The candidate the marker is to show for a pointer position: on screen, below the
  initial \<^verbatim>\<open>closestDist\<close>, and no farther than any other candidate on screen.
\<close>

definition pointerDistance :: "geo \<Rightarrow> sphericalCoords \<Rightarrow> nearbyPano \<Rightarrow> real" where
  "pointerDistance g q c =
     distanceBetween g (latitude q) (longitude q) (pitch (position c)) (yaw (position c)) 1"

definition qualifies :: "psv \<Rightarrow> geo \<Rightarrow> sphericalCoords \<Rightarrow> nearbyPano \<Rightarrow> bool" where
  "qualifies v g q c \<longleftrightarrow>
     \<not> markerPositionIsOffScreen v (position c) \<and> pointerDistance g q c < 9999999"

definition nearest :: "psv \<Rightarrow> geo \<Rightarrow> sphericalCoords \<Rightarrow> nearbyPano list \<Rightarrow> nearbyPano \<Rightarrow> bool" where
  "nearest v g q cs c \<longleftrightarrow>
     c \<in> set cs \<and> qualifies v g q c \<and>
     (\<forall>c' \<in> set cs. \<not> markerPositionIsOffScreen v (position c')
        \<longrightarrow> pointerDistance g q c \<le> pointerDistance g q c')"

definition displays :: "marker \<Rightarrow> nearbyPano \<Rightarrow> bool" where
  "displays m c \<longleftrightarrow>
     visible m \<and> data m = Some (pano c) \<and>
     latitude m = pitch (position c) \<and> longitude m = yaw (position c) \<and>
     width m = 64 * scale c \<and> height m = 64 * scale c"

definition hidden :: "marker \<Rightarrow> bool" where
  "hidden m \<longleftrightarrow> \<not> visible m \<and> data m = None"

subsection \<open>Invariants of the event system\<close>

text \<open>
  While navigation input is disabled, and as long as no candidate set exists, the
  marker is hidden.
\<close>

definition gate_inv :: "movementPlugin \<Rightarrow> bool" where
  "gate_inv s \<longleftrightarrow>
     (\<not> movementEnabled s \<longrightarrow> hidden (marker s)) \<and> (nearbyPanos s = None \<longrightarrow> hidden (marker s))"

text \<open>
  The navigations in flight that a click on the marker has started, and their bound:
  none while input is enabled, at most one while it is disabled.
\<close>

definition markerNavigations :: "movementPlugin \<Rightarrow> nat" where
  "markerNavigations s = length (filter (\<lambda>n. snd n = AfterMarkerClick) (inFlight s))"

definition gated :: "movementPlugin \<Rightarrow> bool" where
  "gated s \<longleftrightarrow> markerNavigations s \<le> (if movementEnabled s then 0 else 1)"

section \<open>The rendering adapter\<close>

subsection \<open>Data\<close>

text \<open>
  A JavaScript number that may be missing: an array read out of range is
  \<^verbatim>\<open>undefined\<close>, and arithmetic on it gives \<^verbatim>\<open>NaN\<close>.
\<close>

datatype number = Num real | NaN | Undefined

definition element :: "real list \<Rightarrow> nat \<Rightarrow> number" where
  "element xs i = (if i < length xs then Num (xs ! i) else Undefined)"

fun minus_number :: "number \<Rightarrow> number \<Rightarrow> number" where
  "minus_number (Num a) (Num b) = Num (a - b)"
| "minus_number a b = NaN"

fun divide_number :: "number \<Rightarrow> number \<Rightarrow> number" where
  "divide_number (Num a) (Num b) = (if b = 0 then NaN else Num (a / b))"
| "divide_number a b = NaN"

text \<open>The operator \<^verbatim>\<open>!==\<close> on numbers.\<close>

fun strictNotEqual :: "number \<Rightarrow> number \<Rightarrow> bool" where
  "strictNotEqual NaN b = True"
| "strictNotEqual a NaN = True"
| "strictNotEqual a b = (a \<noteq> b)"

text \<open>
  The URL of a face image, \<^verbatim>\<open>${this.endpoint}${this.url}${zoom}/${faceIdx}/\<close>, kept in
  its three parts. A loaded image is identified with the URL it was loaded from.
\<close>

record faceUrl =
  url_base :: string
  url_zoom :: nat
  url_faceIdx :: nat

text \<open>A texture with its \<^verbatim>\<open>userData\<close>; a missing \<^verbatim>\<open>refreshing\<close> counts as false.\<close>

record texture =
  img :: faceUrl
  userData_zoom :: nat
  userData_url :: string
  userData_refreshing :: bool

text \<open>A \<^verbatim>\<open>MeshBasicMaterial\<close>: its \<^verbatim>\<open>map\<close>.\<close>

record material =
  map_tex :: "texture option"

text \<open>A buffer geometry: its attributes \<^verbatim>\<open>position\<close> and \<^verbatim>\<open>uv\<close>.\<close>

record geometry =
  positions :: "(real \<times> real \<times> real) list"
  uv :: "(real \<times> real) list"

text \<open>
  A mesh: the merged geometry, one group per face, its array of materials (an array
  can have holes) and the flag of its \<^verbatim>\<open>userData\<close>.
\<close>

record mesh =
  geometries :: "geometry list"
  material :: "material option list"
  psvSphere :: bool

record group =
  group_ref :: nat
  children :: "nat list"

text \<open>What the adapter uses of three.js and of the viewer's constants.\<close>

record three =
  SphereGeometry :: "number list \<Rightarrow> geometry"
  SPHERE_RADIUS :: real

text \<open>
  The camera at the moment of an event: \<^verbatim>\<open>psv.renderer.prop.vFov\<close> and the frustum
  that \<^verbatim>\<open>this.screenFrustum.update(longitude)\<close> leaves.
\<close>

record view =
  vFov :: real
  containsPoint :: "real \<times> real \<times> real \<Rightarrow> bool"

text \<open>
  An upgrade fetch in flight: the URL requested by \<^verbatim>\<open>__loadOneTexture\<close> and the
  \<^verbatim>\<open>oldUrl\<close> its \<^verbatim>\<open>then\<close> callback has captured.
\<close>

record upgrade =
  requested :: faceUrl
  oldUrl :: string

record panoramaMetadata =
  meta_panorama :: panorama
  meta_url :: string

text \<open>
  The adapter and, below \<open>pending\<close>, the part of the viewer it writes to. Meshes are
  objects with an identity: \<open>store\<close> maps a reference to the mesh it denotes,
  references from \<open>next_ref\<close> on are not yet allocated, and \<^verbatim>\<open>this.mesh\<close> and
  \<^verbatim>\<open>psv.renderer.mesh\<close> hold references.
\<close>

record lookaroundAdapter =
  endpoint :: string
  panorama :: panorama
  url :: string
  previousThetaLength :: number
  dynamicLoadingEnabled :: bool
  mesh :: "nat option"
  meshesForFrustum :: "geometry list"
  pending :: "upgrade list"
  store :: "nat \<Rightarrow> mesh"
  next_ref :: nat
  renderer_mesh :: nat
  renderer_meshContainer :: group
  renderer_scene :: "nat list"
  needsUpdate :: bool

definition FACES :: nat where
  "FACES = 6"

definition SPHERE_HORIZONTAL_SEGMENTS :: real where
  "SPHERE_HORIZONTAL_SEGMENTS = 32"

definition degToRad :: "real \<Rightarrow> real" where
  "degToRad deg = (deg * pi) / 180"

subsection \<open>Building the mesh\<close>

text \<open>The array \<^verbatim>\<open>faces\<close> of \<^verbatim>\<open>createMesh\<close>: the arguments of each sphere segment.\<close>

definition faceParameters :: "three \<Rightarrow> real \<Rightarrow> panorama \<Rightarrow> number list list" where
  "faceParameters th scale_by p =
     (let radius = SPHERE_RADIUS th * scale_by;
          normalThetaLength = 1.614429558;
          normalThetaStart = degToRad 28;
          dTheta = minus_number (element (latitude_size p) 0) (Num normalThetaLength);
          sideFacesThetaStart =
            minus_number (Num normalThetaStart) (divide_number dTheta (Num 2))
      in [[Num radius, Num (12 * 2), Num SPHERE_HORIZONTAL_SEGMENTS,
           Num (degToRad (0 - 90)), Num (degToRad 120),
           sideFacesThetaStart, element (latitude_size p) 0],
          [Num radius, Num (6 * 2), Num SPHERE_HORIZONTAL_SEGMENTS,
           Num (degToRad (120 - 90)), Num (degToRad 60),
           sideFacesThetaStart, element (latitude_size p) 1],
          [Num radius, Num (12 * 2), Num SPHERE_HORIZONTAL_SEGMENTS,
           Num (degToRad (180 - 90)), Num (degToRad 120),
           sideFacesThetaStart, element (latitude_size p) 2],
          [Num radius, Num (6 * 2), Num SPHERE_HORIZONTAL_SEGMENTS,
           Num (degToRad (300 - 90)), Num (degToRad 60),
           sideFacesThetaStart, element (latitude_size p) 3]])"

text \<open>\<^verbatim>\<open>geom.scale(x, y, z)\<close> on the positions.\<close>

definition geometry_scale :: "real \<Rightarrow> real \<Rightarrow> real \<Rightarrow> geometry \<Rightarrow> geometry" where
  "geometry_scale sx sy sz geom =
     geom\<lparr>positions := map (\<lambda>(px, py, pz). (px * sx, py * sy, pz * sz)) (positions geom)\<rparr>"

definition setSideUV :: "geometry \<Rightarrow> nat \<Rightarrow> geometry" where
  "setSideUV geom faceIdx =
     geom\<lparr>uv := map (\<lambda>(u, v).
                    let overlap = (if faceIdx mod 2 = 0 then 1 - 1 / 22 else 1 - 1 / 12)
                    in (u * overlap, v))
                 (uv geom)\<rparr>"

text \<open>
  The loop of \<^verbatim>\<open>createMesh\<close> over \<^verbatim>\<open>faces\<close>. The array has four entries (the two
  pole faces are commented out in the source), so every index is below 4 and the
  branches for the indices 4 and 5 never run; they are left out.
\<close>

definition buildGeometries :: "three \<Rightarrow> real \<Rightarrow> panorama \<Rightarrow> geometry list" where
  "buildGeometries th scale_by p =
     map (\<lambda>(i, parameters). setSideUV (geometry_scale (- 1) 1 1 (SphereGeometry th parameters)) i)
       (enumerate 0 (faceParameters th scale_by p))"

text \<open>
  \<^verbatim>\<open>createMesh\<close> returns the reference of the new mesh. All of its material slots
  start as one blank material.
\<close>

definition createMesh :: "three \<Rightarrow> real \<Rightarrow> lookaroundAdapter \<Rightarrow> nat \<times> lookaroundAdapter" where
  "createMesh th scale_by st =
     (let geoms = buildGeometries th scale_by (panorama st);
          m = \<lparr>geometries = geoms,
               material = replicate FACES (Some \<lparr>map_tex = None\<rparr>),
               psvSphere = False\<rparr>;
          r = next_ref st
      in (r, st\<lparr>meshesForFrustum := geoms,
                store := (store st)(r := m),
                next_ref := Suc r,
                mesh := Some r\<rparr>))"

definition recreateMeshIfNecessary :: "three \<Rightarrow> lookaroundAdapter \<Rightarrow> lookaroundAdapter" where
  "recreateMeshIfNecessary th st =
     (let thetaLength = element (latitude_size (panorama st)) 0;
          st' =
            (if strictNotEqual (previousThetaLength st) thetaLength then
               let s1 = st\<lparr>renderer_scene :=
                            remove1 (group_ref (renderer_meshContainer st)) (renderer_scene st)\<rparr>;
                   (m, s2) = createMesh th 1 s1;
                   s3 = s2\<lparr>store := (store s2)(m := (store s2 m)\<lparr>psvSphere := True\<rparr>)\<rparr>;
                   s4 = s3\<lparr>renderer_mesh := m\<rparr>;
                   meshContainer = \<lparr>group_ref = next_ref s4, children = [m]\<rparr>;
                   s5 = s4\<lparr>next_ref := Suc (next_ref s4), renderer_meshContainer := meshContainer\<rparr>
               in s5\<lparr>renderer_scene := renderer_scene s5 @ [group_ref meshContainer]\<rparr>
             else st)
      in st'\<lparr>previousThetaLength := thetaLength\<rparr>)"

subsection \<open>Loading and refreshing textures\<close>

text \<open>
  \<^verbatim>\<open>__loadOneTexture\<close> in two parts: the URL it requests, and the texture its
  \<^verbatim>\<open>then\<close> callback makes of the loaded image, which reads \<^verbatim>\<open>this.url\<close> at that time.
\<close>

definition loadOneTexture :: "nat \<Rightarrow> nat \<Rightarrow> lookaroundAdapter \<Rightarrow> faceUrl" where
  "loadOneTexture zoom faceIdx st =
     \<lparr>url_base = endpoint st @ url st, url_zoom = zoom, url_faceIdx = faceIdx\<rparr>"

definition loadOneTexture_then :: "faceUrl \<Rightarrow> lookaroundAdapter \<Rightarrow> texture" where
  "loadOneTexture_then loaded st =
     \<lparr>img = loaded, userData_zoom = url_zoom loaded, userData_url = url st,
      userData_refreshing = False\<rparr>"

text \<open>
  \<^verbatim>\<open>loadTexture\<close> up to its four requests, which it returns; the progress display is
  not modelled.
\<close>

definition loadTexture ::
  "three \<Rightarrow> panoramaMetadata \<Rightarrow> lookaroundAdapter \<Rightarrow> faceUrl list \<times> lookaroundAdapter" where
  "loadTexture th panoramaMetadata st =
     (let s1 = st\<lparr>panorama := meta_panorama panoramaMetadata, url := meta_url panoramaMetadata\<rparr>;
          s2 = recreateMeshIfNecessary th s1;
          startZoom = 5
      in (map (\<lambda>i. loadOneTexture startZoom i s2) [0, 1, 2, 3], s2))"

text \<open>
  \<^verbatim>\<open>this.mesh.material[faceIdx]\<close>: nothing when \<^verbatim>\<open>this.mesh\<close> is undefined or the
  array has no material at the index, where the source throws on the next property read.
\<close>

definition slot :: "lookaroundAdapter \<Rightarrow> nat \<Rightarrow> material option" where
  "slot st faceIdx =
     (case mesh st of
        None \<Rightarrow> None
      | Some r \<Rightarrow>
          if faceIdx < length (material (store st r)) then material (store st r) ! faceIdx
          else None)"

text \<open>
  The assignment \<^verbatim>\<open>array[i] = x\<close>, which extends the array with holes when \<open>i\<close> is
  beyond its end.
\<close>

definition assign :: "'a option list \<Rightarrow> nat \<Rightarrow> 'a \<Rightarrow> 'a option list" where
  "assign xs i x =
     (if i < length xs then xs[i := Some x]
      else xs @ replicate (i - length xs) None @ [Some x])"

definition assignMaterial :: "nat \<Rightarrow> nat \<Rightarrow> material \<Rightarrow> lookaroundAdapter \<Rightarrow> lookaroundAdapter" where
  "assignMaterial r faceIdx m st =
     st\<lparr>store := (store st)(r := (store st r)\<lparr>material := assign (material (store st r)) faceIdx m\<rparr>)\<rparr>"

text \<open>
  The loop of \<^verbatim>\<open>__refreshFaces\<close>. A fetch that is issued joins \<open>pending\<close>; its
  callback is \<open>refreshFaces_then\<close> below.
\<close>

fun refreshFaces :: "nat list \<Rightarrow> nat \<Rightarrow> lookaroundAdapter \<Rightarrow> error option \<times> lookaroundAdapter" where
  "refreshFaces [] zoom st = (None, st)"
| "refreshFaces (faceIdx # faces) zoom st =
     (case (mesh st, slot st faceIdx) of
        (Some r, Some m) \<Rightarrow>
          (case map_tex m of
             None \<Rightarrow> refreshFaces faces zoom st
           | Some t \<Rightarrow>
               if userData_zoom t > zoom \<and> \<not> userData_refreshing t then
                 let s1 = assignMaterial r faceIdx
                            (m\<lparr>map_tex := Some (t\<lparr>userData_refreshing := True\<rparr>)\<rparr>) st;
                     old = userData_url t;
                     s2 = s1\<lparr>pending := pending s1 @
                               [\<lparr>requested = loadOneTexture zoom faceIdx s1, oldUrl = old\<rparr>]\<rparr>
                 in refreshFaces faces zoom s2
               else refreshFaces faces zoom st)
      | _ \<Rightarrow> (Some TypeError, st))"

text \<open>
  The callback of an upgrade fetch, called with the texture \<^verbatim>\<open>__loadOneTexture\<close> has
  made.
\<close>

definition refreshFaces_then ::
  "upgrade \<Rightarrow> texture \<Rightarrow> lookaroundAdapter \<Rightarrow> error option \<times> lookaroundAdapter" where
  "refreshFaces_then f tx st =
     (let faceIdx = url_faceIdx (requested f)
      in case (mesh st, slot st faceIdx) of
          (Some r, Some m) \<Rightarrow>
            (case map_tex m of
               None \<Rightarrow> (Some TypeError, st)
             | Some t \<Rightarrow>
                 if userData_url t = oldUrl f then
                   let s1 = assignMaterial r faceIdx
                              \<lparr>map_tex = Some (tx\<lparr>userData_refreshing := False\<rparr>)\<rparr> st
                   in (None, s1\<lparr>needsUpdate := True\<rparr>)
                 else (None, st))
        | _ \<Rightarrow> (Some TypeError, st))"

text \<open>Every twentieth element, from the first on: the samples of \<^verbatim>\<open>__getVisibleFaces\<close>.\<close>

fun sampled :: "'a list \<Rightarrow> 'a list" where
  "sampled [] = []"
| "sampled (x # xs) = x # sampled (drop 19 xs)"

definition getVisibleFaces :: "view \<Rightarrow> lookaroundAdapter \<Rightarrow> nat list" where
  "getVisibleFaces v st =
     filter (\<lambda>meshIdx. list_ex (containsPoint v) (sampled (positions (meshesForFrustum st ! meshIdx))))
       [0..<length (meshesForFrustum st)]"

definition refresh :: "view \<Rightarrow> lookaroundAdapter \<Rightarrow> error option \<times> lookaroundAdapter" where
  "refresh v st =
     (case mesh st of
        None \<Rightarrow> (None, st)
      | Some r \<Rightarrow>
          if length (material (store st r)) = 0 then (None, st)
          else if \<not> dynamicLoadingEnabled st then (None, st)
          else
            let visibleFaces = getVisibleFaces v st
            in if vFov v < 55 then refreshFaces visibleFaces 0 st
               else refreshFaces visibleFaces 2 st)"

text \<open>
  \<^verbatim>\<open>setTexture(mesh, textureData)\<close>; the first argument is the reference of the mesh
  the viewer passes and the second is \<^verbatim>\<open>textureData.texture\<close>.
\<close>

fun setTexture_loop ::
  "nat list \<Rightarrow> nat \<Rightarrow> texture option list \<Rightarrow> lookaroundAdapter \<Rightarrow> lookaroundAdapter" where
  "setTexture_loop [] r textures st = st"
| "setTexture_loop (i # is) r textures st =
     (case (if i < length textures then textures ! i else None) of
        None \<Rightarrow> setTexture_loop is r textures st
      | Some t \<Rightarrow> setTexture_loop is r textures (assignMaterial r i \<lparr>map_tex = Some t\<rparr> st))"

definition setTexture ::
  "view \<Rightarrow> nat \<Rightarrow> texture option list \<Rightarrow> lookaroundAdapter \<Rightarrow> error option \<times> lookaroundAdapter" where
  "setTexture v r textures st = refresh v (setTexture_loop [0..<FACES] r textures st)"

subsection \<open>The adapter as an event system\<close>

text \<open>
  \<open>Refresh\<close> is \<^verbatim>\<open>handleEvent\<close> on a rotation or a zoom. \<open>FetchDone k\<close> and
  \<open>FetchFailed k\<close> settle the \<open>k\<close>-th upgrade fetch in flight. A navigation is two
  events of the viewer: \<open>LoadTexture\<close> is its call of \<^verbatim>\<open>loadTexture\<close>, which returns
  with the four image requests under way, and \<open>SetTexture\<close> is its later call of
  \<^verbatim>\<open>setTexture\<close> on the renderer's mesh, with the textures the promise of
  \<^verbatim>\<open>loadTexture\<close> has delivered, each made by the \<^verbatim>\<open>then\<close> callback of
  \<^verbatim>\<open>__loadOneTexture\<close> when its image arrived. Any event may fall between the two.
\<close>

datatype adapterEvent =
    Refresh view
  | FetchDone nat
  | FetchFailed nat
  | LoadTexture panoramaMetadata
  | SetTexture view "texture option list"

definition fetchDone :: "nat \<Rightarrow> lookaroundAdapter \<Rightarrow> error option \<times> lookaroundAdapter" where
  "fetchDone k st =
     (if k < length (pending st) then
        let f = pending st ! k;
            s1 = st\<lparr>pending := take k (pending st) @ drop (Suc k) (pending st)\<rparr>
        in refreshFaces_then f (loadOneTexture_then (requested f) s1) s1
      else (None, st))"

definition fetchFailed :: "nat \<Rightarrow> lookaroundAdapter \<Rightarrow> lookaroundAdapter" where
  "fetchFailed k st =
     (if k < length (pending st)
      then st\<lparr>pending := take k (pending st) @ drop (Suc k) (pending st)\<rparr>
      else st)"

fun occur :: "three \<Rightarrow> adapterEvent \<Rightarrow> lookaroundAdapter \<Rightarrow> lookaroundAdapter" where
  "occur th (Refresh v) st = snd (refresh v st)"
| "occur th (FetchDone k) st = snd (fetchDone k st)"
| "occur th (FetchFailed k) st = fetchFailed k st"
| "occur th (LoadTexture panoramaMetadata) st = snd (loadTexture th panoramaMetadata st)"
| "occur th (SetTexture v textures) st = snd (setTexture v (renderer_mesh st) textures st)"

fun occurAll :: "three \<Rightarrow> adapterEvent list \<Rightarrow> lookaroundAdapter \<Rightarrow> lookaroundAdapter" where
  "occurAll th [] st = st"
| "occurAll th (e # es) st = occurAll th es (occur th e st)"

subsection \<open>Observations and invariants\<close>

text \<open>
  The references the renderer holds are allocated, and its scene lists no object twice
  (three.js removes an object from its parent before it adds it).
\<close>

definition allocated :: "lookaroundAdapter \<Rightarrow> bool" where
  "allocated st \<longleftrightarrow>
     renderer_mesh st < next_ref st \<and>
     group_ref (renderer_meshContainer st) < next_ref st \<and>
     (\<forall>r \<in> set (renderer_scene st). r < next_ref st) \<and>
     distinct (renderer_scene st)"

text \<open>
  The state once the viewer has built its renderer: the adapter's constructor has run,
  and the renderer has called \<^verbatim>\<open>createMesh\<close>, flagged the mesh and put it into a
  container in its scene, the steps \<^verbatim>\<open>__recreateMeshIfNecessary\<close> repeats.
\<close>

definition blankMesh :: mesh where
  "blankMesh = \<lparr>geometries = [], material = [], psvSphere = False\<rparr>"

definition viewerStarted :: "three \<Rightarrow> string \<Rightarrow> panoramaMetadata \<Rightarrow> lookaroundAdapter" where
  "viewerStarted th ep panoramaMetadata =
     (let st0 = \<lparr>endpoint = ep,
                  panorama = meta_panorama panoramaMetadata,
                  url = meta_url panoramaMetadata,
                  previousThetaLength = element (latitude_size (meta_panorama panoramaMetadata)) 0,
                  dynamicLoadingEnabled = True,
                  mesh = None,
                  meshesForFrustum = [],
                  pending = [],
                  store = (\<lambda>r. blankMesh),
                  next_ref = 0,
                  renderer_mesh = 0,
                  renderer_meshContainer = \<lparr>group_ref = 1, children = [0]\<rparr>,
                  renderer_scene = [1],
                  needsUpdate = False\<rparr>;
          (m, st1) = createMesh th 1 st0
      in st1\<lparr>store := (store st1)(m := (store st1 m)\<lparr>psvSphere := True\<rparr>),
             next_ref := Suc (next_ref st1)\<rparr>)"

text \<open>
  The texture of a face slot and its source identity, the upgrade fetches in flight for
  a face, the events of a navigation, and the number of fetches \<^verbatim>\<open>__refreshFaces\<close> can
  still issue for a face before the texture of its slot is replaced: one when the slot
  holds an unmarked texture, none when the texture is marked or the slot has none.
\<close>

definition slotTexture :: "lookaroundAdapter \<Rightarrow> nat \<Rightarrow> texture option" where
  "slotTexture st faceIdx = (case slot st faceIdx of None \<Rightarrow> None | Some m \<Rightarrow> map_tex m)"

definition slotUrl :: "lookaroundAdapter \<Rightarrow> nat \<Rightarrow> string option" where
  "slotUrl st faceIdx = map_option userData_url (slotTexture st faceIdx)"

definition pendingFor :: "lookaroundAdapter \<Rightarrow> nat \<Rightarrow> upgrade list" where
  "pendingFor st faceIdx = filter (\<lambda>f. url_faceIdx (requested f) = faceIdx) (pending st)"

fun isNavigation :: "adapterEvent \<Rightarrow> bool" where
  "isNavigation (LoadTexture panoramaMetadata) = True"
| "isNavigation (SetTexture v textures) = True"
| "isNavigation e = False"

fun isSetTexture :: "adapterEvent \<Rightarrow> bool" where
  "isSetTexture (SetTexture v textures) = True"
| "isSetTexture e = False"

definition headroom :: "lookaroundAdapter \<Rightarrow> nat \<Rightarrow> nat" where
  "headroom st faceIdx =
     (case slotTexture st faceIdx of
        None \<Rightarrow> 0
      | Some t \<Rightarrow> if userData_refreshing t then 0 else 1)"

text \<open>
  The fetches in flight for a face whose result the callback would install in the slot as
  it is: those that captured the URL of the texture the slot holds. The adapter is
  \<open>settled\<close> when no fetch in flight has captured the URL the adapter holds or the URL
  of the texture in the slot of its face.
\<close>

definition matchingFor :: "lookaroundAdapter \<Rightarrow> nat \<Rightarrow> upgrade list" where
  "matchingFor st faceIdx =
     filter (\<lambda>f. url_faceIdx (requested f) = faceIdx \<and> slotUrl st faceIdx = Some (oldUrl f))
       (pending st)"

definition settled :: "lookaroundAdapter \<Rightarrow> bool" where
  "settled st \<longleftrightarrow>
     (\<forall>f \<in> set (pending st).
        oldUrl f \<noteq> url st \<and> slotUrl st (url_faceIdx (requested f)) \<noteq> Some (oldUrl f))"

text \<open>
  For every face, at most one fetch in flight has captured the URL of the texture in the
  slot, the slot is then marked and holds a coarser level than the one requested, and a
  fetch in flight that captured the URL the adapter holds finds no texture of another
  URL in the slot. Refreshes and completions of upgrade fetches keep this.
\<close>

definition upgrade_inv :: "lookaroundAdapter \<Rightarrow> bool" where
  "upgrade_inv st \<longleftrightarrow>
     (\<forall>i. length (matchingFor st i) \<le> 1 \<and>
          (\<forall>f \<in> set (matchingFor st i).
             \<exists>t. slotTexture st i = Some t \<and> userData_refreshing t \<and>
                 url_zoom (requested f) < userData_zoom t) \<and>
          (\<forall>f \<in> set (pendingFor st i).
             oldUrl f = url st \<longrightarrow> slotUrl st i = None \<or> slotUrl st i = Some (url st)))"

text \<open>
  The state after one iteration of \<^verbatim>\<open>__refreshFaces\<close> that issues a fetch, and what a
  whole call does: the fetches \<open>new\<close> join \<open>pending\<close>, each for an unmarked slot of
  a coarser level, whose URL it captures and which it marks; every other slot is as before.
\<close>

definition issued :: "nat \<Rightarrow> nat \<Rightarrow> nat \<Rightarrow> material \<Rightarrow> texture \<Rightarrow> lookaroundAdapter \<Rightarrow> lookaroundAdapter" where
  "issued r faceIdx zoom m t st =
     (assignMaterial r faceIdx (m\<lparr>map_tex := Some (t\<lparr>userData_refreshing := True\<rparr>)\<rparr>) st)
       \<lparr>pending := pending st @ [\<lparr>requested = loadOneTexture zoom faceIdx st, oldUrl = userData_url t\<rparr>]\<rparr>"

definition requests :: "nat \<Rightarrow> lookaroundAdapter \<Rightarrow> lookaroundAdapter \<Rightarrow> upgrade list \<Rightarrow> bool" where
  "requests zoom st st' new \<longleftrightarrow>
     pending st' = pending st @ new \<and>
     (\<forall>f \<in> set new.
        \<exists>t. slotTexture st (url_faceIdx (requested f)) = Some t \<and>
            \<not> userData_refreshing t \<and>
            zoom < userData_zoom t \<and>
            oldUrl f = userData_url t \<and>
            url_zoom (requested f) = zoom \<and>
            slotTexture st' (url_faceIdx (requested f)) = Some (t\<lparr>userData_refreshing := True\<rparr>)) \<and>
     (\<forall>i. (\<exists>f \<in> set new. url_faceIdx (requested f) = i) \<or> slotTexture st' i = slotTexture st i)"

text \<open>
  One step keeps the texture of every slot (up to the mark) or installs a strictly
  better level; over several steps no slot gets worse.
\<close>

definition steps_down :: "lookaroundAdapter \<Rightarrow> lookaroundAdapter \<Rightarrow> bool" where
  "steps_down st st' \<longleftrightarrow>
     (\<forall>i t. slotTexture st i = Some t \<longrightarrow>
        (\<exists>t'. slotTexture st' i = Some t' \<and>
           (userData_zoom t' < userData_zoom t \<or> t' = t \<or> t' = t\<lparr>userData_refreshing := True\<rparr>)))"

definition not_worse :: "lookaroundAdapter \<Rightarrow> lookaroundAdapter \<Rightarrow> bool" where
  "not_worse st st' \<longleftrightarrow>
     (\<forall>i t. slotTexture st i = Some t \<longrightarrow>
        (\<exists>t'. slotTexture st' i = Some t' \<and> userData_zoom t' \<le> userData_zoom t))"

section \<open>Example inputs\<close>

text \<open>
  A flat stand-in for \<^verbatim>\<open>geo.js\<close> (metres per degree, distance along the axes) and
  panoramas around latitude 48, longitude 11, used where a statement is run on a
  concrete input.
\<close>

definition flatGeo :: geo where
  "flatGeo =
     \<lparr>geodeticToEnu = (\<lambda>lo la h refLo refLa refH.
          ((lo - refLo) * 74000, (la - refLa) * 111000, h - refH)),
      enuToPhotoSphere = (\<lambda>enu offset.
          \<lparr>yaw = 0, pitch = 0, distance = \<bar>fst enu\<bar> + \<bar>fst (snd enu)\<bar>\<rparr>),
      distanceBetween = (\<lambda>lat1 lon1 lat2 lon2 r. \<bar>lat1 - lat2\<bar> + \<bar>lon1 - lon2\<bar>)\<rparr>"

definition munich :: "nat \<Rightarrow> real \<Rightarrow> panorama" where
  "munich n la = \<lparr>panoid = n, lat = la, lon = 11, rawElevation = 1000, latitude_size = []\<rparr>"

text \<open>
  A viewer of 800 by 600 pixels that maps a spherical position to the screen linearly,
  the candidate the example response leaves, and states of the plugin: with that one
  candidate and the pointer never moved (\<open>hovering\<close>), during the transition a click
  on the marker has started (\<open>navigating\<close>), and with an empty candidate set
  (\<open>deserted\<close>).
\<close>

definition screen :: psv where
  "screen =
     \<lparr>viewerCoordsToVector3 = (\<lambda>xy.
          if 0 \<le> fst xy \<and> fst xy \<le> 800 \<and> 0 \<le> snd xy \<and> snd xy \<le> 600
          then Some (fst xy, snd xy, 0) else None),
      vector3ToSphericalCoords = (\<lambda>p.
          \<lparr>latitude = (300 - fst (snd p)) / 1000, longitude = (fst p - 400) / 1000\<rparr>),
      sphericalCoordsToViewerCoords = (\<lambda>c. (400 + 1000 * longitude c, 300 - 1000 * latitude c)),
      size_width = 800,
      size_height = 600\<rparr>"

definition neighbour :: nearbyPano where
  "neighbour = \<lparr>pano = munich 1 48.0001, position = \<lparr>yaw = 0, pitch = 0, distance = 11.1\<rparr>,
                 scale = 0.4945\<rparr>"

definition hovering :: movementPlugin where
  "hovering = run flatGeo
     [PanosFetched (munich 0 48) [munich 1 48.0001, munich 2 48.01, munich 3 48]] constructor"

definition navigating :: movementPlugin where
  "navigating = run flatGeo
     [PanosFetched (munich 0 48) [munich 1 48.0001, munich 2 48.01, munich 3 48],
      MouseMove screen \<lparr>now = 1000, clientX = 410, clientY = 300\<rparr>,
      Click screen \<lparr>latitude = 0, longitude = 0.01, rightclick = False\<rparr>] constructor"

definition deserted :: movementPlugin where
  "deserted = run flatGeo [PanosFetched (munich 0 48) []] constructor"

text \<open>
  For the adapter: a stand-in for three.js whose sphere segment has one vertex, placed
  by the vertical extent of the face, and two texture coordinates; panoramas of a car
  and of a trekker rig; a camera that sees face 0 only; the state of a viewer started
  on panorama 1; the textures \<open>images\<close> the viewer passes to \<^verbatim>\<open>setTexture\<close> when the
  four images of a panorama have arrived; and the family \<open>showing\<close> of states that
  differ from the started viewer in the panorama, the materials, the fetches in flight and
  the update flag: panorama 1 assigned with nothing in flight (\<open>displayed\<close>), with the
  upgrade of face 0 requested (\<open>upgrading\<close>) and with that upgrade applied
  (\<open>upgraded\<close>); panorama 2 assigned while the upgrade requested for face 0 of
  panorama 1 is still in flight (\<open>arrived\<close>), and after the refresh that follows
  (\<open>arrivedUpgrading\<close>).
\<close>

definition flatThree :: three where
  "flatThree =
     \<lparr>SphereGeometry = (\<lambda>parameters.
        \<lparr>positions = [(case parameters ! 6 of Num t \<Rightarrow> t | _ \<Rightarrow> 0, 0, 0)],
         uv = [(0, 0), (1, 1)]\<rparr>),
      SPHERE_RADIUS = 10\<rparr>"

definition car :: "nat \<Rightarrow> string \<Rightarrow> panoramaMetadata" where
  "car n u = \<lparr>meta_panorama = \<lparr>panoid = n, lat = 48, lon = 11, rawElevation = 1000,
                                latitude_size = [1.6, 1.61, 1.62, 1.63]\<rparr>,
             meta_url = u\<rparr>"


definition facing0 :: "real \<Rightarrow> view" where
  "facing0 fov = \<lparr>vFov = fov, containsPoint = (\<lambda>p. fst p = - 1.6)\<rparr>"

definition started :: lookaroundAdapter where
  "started = viewerStarted flatThree ''https://host'' (car 1 ''/pano/1/'')"

definition carGeometries :: "geometry list" where
  "carGeometries =
     [\<lparr>positions = [(- 1.6, 0, 0)], uv = [(0, 0), (21 / 22, 1)]\<rparr>,
      \<lparr>positions = [(- 1.61, 0, 0)], uv = [(0, 0), (11 / 12, 1)]\<rparr>,
      \<lparr>positions = [(- 1.62, 0, 0)], uv = [(0, 0), (21 / 22, 1)]\<rparr>,
      \<lparr>positions = [(- 1.63, 0, 0)], uv = [(0, 0), (11 / 12, 1)]\<rparr>]"

definition blank6 :: "material option list" where
  "blank6 = [Some \<lparr>map_tex = None\<rparr>, Some \<lparr>map_tex = None\<rparr>, Some \<lparr>map_tex = None\<rparr>,
             Some \<lparr>map_tex = None\<rparr>, Some \<lparr>map_tex = None\<rparr>, Some \<lparr>map_tex = None\<rparr>]"

definition face :: "string \<Rightarrow> nat \<Rightarrow> nat \<Rightarrow> bool \<Rightarrow> material option" where
  "face u z i marked =
     Some \<lparr>map_tex = Some \<lparr>img = \<lparr>url_base = ''https://host'' @ u, url_zoom = z, url_faceIdx = i\<rparr>,
                            userData_zoom = z, userData_url = u, userData_refreshing = marked\<rparr>\<rparr>"

definition fresh :: "string \<Rightarrow> material option list" where
  "fresh u = [face u 5 0 False, face u 5 1 False, face u 5 2 False, face u 5 3 False,
              Some \<lparr>map_tex = None\<rparr>, Some \<lparr>map_tex = None\<rparr>]"

definition upgradeOf :: "string \<Rightarrow> nat \<Rightarrow> nat \<Rightarrow> upgrade" where
  "upgradeOf u z i =
     \<lparr>requested = \<lparr>url_base = ''https://host'' @ u, url_zoom = z, url_faceIdx = i\<rparr>, oldUrl = u\<rparr>"

definition showing ::
  "nat \<Rightarrow> string \<Rightarrow> material option list \<Rightarrow> upgrade list \<Rightarrow> bool \<Rightarrow> lookaroundAdapter" where
  "showing n u ms fs nu =
     started\<lparr>panorama := meta_panorama (car n u),
             url := u,
             store := (\<lambda>r. blankMesh)(0 := \<lparr>geometries = carGeometries, material = ms, psvSphere = True\<rparr>),
             pending := fs,
             needsUpdate := nu\<rparr>"

definition displayed :: lookaroundAdapter where
  "displayed = showing 1 ''/pano/1/'' (fresh ''/pano/1/'') [] False"

definition upgrading :: lookaroundAdapter where
  "upgrading = showing 1 ''/pano/1/'' (face ''/pano/1/'' 5 0 True # drop 1 (fresh ''/pano/1/''))
                 [upgradeOf ''/pano/1/'' 2 0] False"

definition upgraded :: lookaroundAdapter where
  "upgraded = showing 1 ''/pano/1/'' (face ''/pano/1/'' 2 0 False # drop 1 (fresh ''/pano/1/'')) [] True"

definition arrived :: lookaroundAdapter where
  "arrived = showing 2 ''/pano/2/'' (fresh ''/pano/2/'') [upgradeOf ''/pano/1/'' 2 0] False"

definition arrivedUpgrading :: lookaroundAdapter where
  "arrivedUpgrading =
     showing 2 ''/pano/2/'' (face ''/pano/2/'' 5 0 True # drop 1 (fresh ''/pano/2/''))
       [upgradeOf ''/pano/1/'' 2 0, upgradeOf ''/pano/2/'' 2 0] False"

definition images :: "string \<Rightarrow> texture option list" where
  "images u =
     map (\<lambda>i. Some \<lparr>img = \<lparr>url_base = ''https://host'' @ u, url_zoom = 5, url_faceIdx = i\<rparr>,
                      userData_zoom = 5, userData_url = u, userData_refreshing = False\<rparr>)
       [0, 1, 2, 3]"

section \<open>Properties of the navigation plugin\<close>

subsection \<open>The candidate set\<close>

lemma updatePanoMarkers_loop_eq:
  "updatePanoMarkers_loop g refPano ps acc =
     acc @ map (\<lambda>p. \<lparr>pano = p, position = relativePosition g refPano p,
                       scale = 0.05 + (0.5 - (0.5 * distance (relativePosition g refPano p)) / 100)\<rparr>)
             (filter (\<lambda>p. \<not> (lat refPano = lat p \<and> lon refPano = lon p)
                          \<and> \<not> distance (relativePosition g refPano p) > MAX_DISTANCE) ps)"
  by (induction ps arbitrary: acc) (simp_all add: Let_def)

text \<open>
  Claim C2. After \<^verbatim>\<open>updatePanoMarkers\<close> the candidate set is defined; every stored
  candidate belongs to a neighbour of the response, carries the position computed for
  that neighbour, has a distance of at most 100 and does not share both coordinates
  with the reference panorama; and a neighbour that shares the coordinates or is
  farther than 100 has no candidate.
\<close>

theorem nearbyPanos_within_range:
  "case nearbyPanos (updatePanoMarkers g refPano responsePanos s) of
     None \<Rightarrow> False
   | Some cs \<Rightarrow>
       (\<forall>c \<in> set cs.
          pano c \<in> set responsePanos \<and>
          position c = relativePosition g refPano (pano c) \<and>
          distance (position c) \<le> 100 \<and>
          \<not> (lat (pano c) = lat refPano \<and> lon (pano c) = lon refPano)) \<and>
       (\<forall>p \<in> set responsePanos.
          (lat p = lat refPano \<and> lon p = lon refPano) \<or>
          distance (relativePosition g refPano p) > 100
          \<longrightarrow> p \<notin> pano ` set cs)"
  by (auto simp add: updatePanoMarkers_def updatePanoMarkers_loop_eq MAX_DISTANCE_def)

lemma munich_candidates:
  "nearbyPanos (updatePanoMarkers flatGeo (munich 0 48)
      [munich 1 48.0001, munich 2 48.01, munich 3 48] constructor)
     = Some [\<lparr>pano = munich 1 48.0001, position = \<lparr>yaw = 0, pitch = 0, distance = 11.1\<rparr>,
              scale = 0.4945\<rparr>]"
  by (simp add: updatePanoMarkers_def flatGeo_def munich_def relativePosition_def
      MAX_DISTANCE_def constructor_def CAMERA_HEIGHT_def)

theorem nearbyPanos_within_range_witness:
  "nearbyPanos (updatePanoMarkers flatGeo (munich 0 48)
      [munich 1 48.0001, munich 2 48.01, munich 3 48] constructor)
     = Some [\<lparr>pano = munich 1 48.0001, position = \<lparr>yaw = 0, pitch = 0, distance = 11.1\<rparr>,
              scale = 0.4945\<rparr>] \<and>
   distance \<lparr>yaw = 0, pitch = 0, distance = 11.1\<rparr> \<le> (100 :: real) \<and>
   munich 3 48 \<notin> {munich 1 48.0001} \<and>
   munich 2 48.01 \<notin> {munich 1 48.0001}"
  using nearbyPanos_within_range [where g = flatGeo and refPano = "munich 0 48"
      and responsePanos = "[munich 1 48.0001, munich 2 48.01, munich 3 48]" and s = constructor]
  unfolding munich_candidates
  by (simp add: munich_def flatGeo_def relativePosition_def CAMERA_HEIGHT_def)

subsection \<open>The two rate limiters\<close>

lemma updateLimit_not_integral: "real_of_int ms \<noteq> updateLimit"
proof
  assume "real_of_int ms = updateLimit"
  then have "real_of_int (ms * 60) = real_of_int 1000"
    by (simp add: updateLimit_def)
  then have "ms * 60 = 1000"
    by (simp only: of_int_eq_iff)
  then show False
    by presburger
qed

lemma below_iff_not_above: "real_of_int ms < updateLimit \<longleftrightarrow> \<not> real_of_int ms > updateLimit"
  using updateLimit_not_integral [of ms] by linarith

lemma onMouseMove_early_eq: "onMouseMove_early v g e s = onMouseMove v g e s"
  by (simp add: onMouseMove_early_def onMouseMove_def Let_def below_iff_not_above)

lemma processed_early_eq: "processed_early g es s = processed g es s"
  by (induction es arbitrary: s)
    (auto simp add: onMouseMove_early_eq below_iff_not_above simp del: of_int_diff)

lemma mouseMoves_early_eq: "mouseMoves_early g es s = mouseMoves g es s"
  by (induction es arbitrary: s) (auto simp add: onMouseMove_early_eq)

text \<open>
  Claim C10. On timestamps that are whole milliseconds the elapsed time never equals
  the limit of 1000/60, so the copy that returns early below the limit and the copy
  that processes above the limit handle every event alike: out of any sequence of
  events they process the same ones and leave the same state.
\<close>

theorem rate_limiters_agree:
  "real_of_int (now e - lastProcessedMoveEvent s) \<noteq> updateLimit \<and>
   onMouseMove_early v g e s = onMouseMove v g e s \<and>
   processed_early g es s = processed g es s \<and>
   mouseMoves_early g es s = mouseMoves g es s"
  by (simp add: updateLimit_not_integral onMouseMove_early_eq processed_early_eq
      mouseMoves_early_eq del: of_int_diff)


subsection \<open>Pointer moves and the marker\<close>

lemma hidden_hideMarker [simp]: "hidden (marker (hideMarker s))"
  by (simp add: hidden_def hideMarker_def)

lemma hideMarker_fields [simp]:
  "movementEnabled (hideMarker s) = movementEnabled s"
  "nearbyPanos (hideMarker s) = nearbyPanos s"
  by (simp_all add: hideMarker_def)

lemma showMarker_fields [simp]:
  "movementEnabled (showMarker c s) = movementEnabled s"
  "nearbyPanos (showMarker c s) = nearbyPanos s"
  by (simp_all add: showMarker_def)

lemma gate_inv_mouseMovedTo: "gate_inv s \<Longrightarrow> gate_inv (snd (mouseMovedTo v g pos s))"
  by (auto simp add: gate_inv_def mouseMovedTo_def split: sum.splits option.splits)

lemma gate_inv_onMouseMove: "gate_inv s \<Longrightarrow> gate_inv (snd (onMouseMove v g e s))"
proof -
  assume inv: "gate_inv s"
  have a: "gate_inv (s\<lparr>mouseHasMoved := True\<rparr>)"
    using inv by (simp add: gate_inv_def)
  have b: "gate_inv (s\<lparr>mouseHasMoved := True, lastProcessedMoveEvent := t\<rparr>)" for t
    using inv by (simp add: gate_inv_def)
  have c: "gate_inv (s\<lparr>mouseHasMoved := True, lastProcessedMoveEvent := t, lastMousePosition := p\<rparr>)" for t p
    using inv by (simp add: gate_inv_def)
  have d: "gate_inv (hideMarker (s\<lparr>mouseHasMoved := True, lastProcessedMoveEvent := t\<rparr>))" for t
    by (simp add: gate_inv_def)
  show ?thesis
    using a c d
    by (simp add: onMouseMove_def processMove_def Let_def gate_inv_mouseMovedTo split: option.splits)
qed

lemma onClick_outcomes:
  "snd (onClick v g d s) = s \<or>
   (\<exists>p. snd (onClick v g d s) = s\<lparr>inFlight := inFlight s @ [(p, AfterTap)]\<rparr>) \<or>
   (movementEnabled s \<and>
    (\<exists>p. snd (onClick v g d s) =
       (hideMarker s)\<lparr>movementEnabled := False, inFlight := inFlight s @ [(p, AfterMarkerClick)]\<rparr>))"
proof (cases "rightclick d \<or> \<not> movementEnabled s")
  case True
  then show ?thesis by (simp add: onClick_def)
next
  case enabled: False
  show ?thesis
  proof (cases "boundPano s")
    case (Some p)
    with enabled have "snd (onClick v g d s) =
       (hideMarker s)\<lparr>movementEnabled := False, inFlight := inFlight s @ [(p, AfterMarkerClick)]\<rparr>"
      by (simp add: onClick_def Let_def hideMarker_def)
    with enabled show ?thesis by blast
  next
    case None
    show ?thesis
    proof (cases "mouseHasMoved s")
      case True
      with None enabled show ?thesis by (simp add: onClick_def)
    next
      case False
      show ?thesis
      proof (cases "getClosestPano v g (Some \<lparr>latitude = latitude d, longitude = longitude d\<rparr>) s")
        case (Inl e)
        with None enabled False show ?thesis by (simp add: onClick_def)
      next
        case (Inr r)
        show ?thesis
        proof (cases r)
          case nothing: None
          with Inr None enabled False show ?thesis by (simp add: onClick_def)
        next
          case (Some c)
          with Inr None enabled False
          have "snd (onClick v g d s) = s\<lparr>inFlight := inFlight s @ [(pano c, AfterTap)]\<rparr>"
            by (simp add: onClick_def)
          then show ?thesis by blast
        qed
      qed
    qed
  qed
qed

lemma gate_inv_onClick: "gate_inv s \<Longrightarrow> gate_inv (snd (onClick v g d s))"
proof -
  assume inv: "gate_inv s"
  from onClick_outcomes [of v g d s]
  consider "snd (onClick v g d s) = s"
    | p where "snd (onClick v g d s) = s\<lparr>inFlight := inFlight s @ [(p, AfterTap)]\<rparr>"
    | p where "snd (onClick v g d s) =
       (hideMarker s)\<lparr>movementEnabled := False, inFlight := inFlight s @ [(p, AfterMarkerClick)]\<rparr>"
    by blast
  then show ?thesis
  proof cases
    case 1
    with inv show ?thesis by simp
  next
    case 2
    with inv show ?thesis by (simp add: gate_inv_def)
  next
    case 3
    then show ?thesis by (simp add: gate_inv_def hidden_def hideMarker_def)
  qed
qed

lemma gate_inv_onClick_resume: "gate_inv s \<Longrightarrow> gate_inv (snd (onClick_resume v g k s))"
proof -
  assume inv: "gate_inv s"
  have "gate_inv (s\<lparr>inFlight := xs, moved := ys\<rparr>)" for xs ys
    using inv by (simp add: gate_inv_def)
  moreover have "gate_inv (s\<lparr>inFlight := xs, moved := ys, movementEnabled := True\<rparr>)" for xs ys
    using inv by (simp add: gate_inv_def)
  ultimately show ?thesis
    using inv
    by (simp add: onClick_resume_def Let_def gate_inv_mouseMovedTo split: continuation.splits)
qed

lemma gate_inv_fire: "gate_inv s \<Longrightarrow> gate_inv (fire g e s)"
proof (cases e)
  case (MouseMove v m)
  assume "gate_inv s"
  then show ?thesis using MouseMove by (simp add: gate_inv_onMouseMove)
next
  case (Click v d)
  assume "gate_inv s"
  then show ?thesis using Click by (simp add: gate_inv_onClick)
next
  case (TransitionDone v k)
  assume "gate_inv s"
  then show ?thesis using TransitionDone by (simp add: gate_inv_onClick_resume)
next
  case (TransitionFailed k)
  assume "gate_inv s"
  then show ?thesis using TransitionFailed by (simp add: gate_inv_def onClick_abandon_def)
next
  case (PanosFetched r ps)
  assume "gate_inv s"
  then show ?thesis using PanosFetched by (simp add: gate_inv_def updatePanoMarkers_def)
qed

lemma gate_inv_run: "gate_inv s \<Longrightarrow> gate_inv (run g es s)"
  by (induction es arbitrary: s) (simp_all add: gate_inv_fire)

lemma gate_inv_constructor: "gate_inv constructor"
  by (simp add: gate_inv_def constructor_def hidden_def)

lemma loop_total: "\<exists>r. getClosestPano_loop v g (Some q) ps closest cd = Inr r"
  by (induction ps arbitrary: closest cd) (simp_all add: Let_def)

lemma loop_spec:
  "getClosestPano_loop v g (Some q) ps closest cd = Inr r \<Longrightarrow>
     (case r of
        None \<Rightarrow> closest = None \<and>
          (\<forall>c \<in> set ps. \<not> (\<not> markerPositionIsOffScreen v (position c) \<and> pointerDistance g q c < cd))
      | Some c \<Rightarrow>
          (r = closest \<and>
           (\<forall>c' \<in> set ps. \<not> markerPositionIsOffScreen v (position c') \<longrightarrow> cd \<le> pointerDistance g q c')) \<or>
          (c \<in> set ps \<and> \<not> markerPositionIsOffScreen v (position c) \<and> pointerDistance g q c < cd \<and>
           (\<forall>c' \<in> set ps. \<not> markerPositionIsOffScreen v (position c')
               \<longrightarrow> pointerDistance g q c \<le> pointerDistance g q c')))"
proof (induction ps arbitrary: closest cd)
  case Nil
  then show ?case by (auto split: option.splits)
next
  case (Cons p ps)
  show ?case
  proof (cases "markerPositionIsOffScreen v (position p)")
    case True
    with Cons.prems have "getClosestPano_loop v g (Some q) ps closest cd = Inr r" by simp
    from Cons.IH [OF this] True show ?thesis by (auto split: option.splits)
  next
    case False
    show ?thesis
    proof (cases "pointerDistance g q p < cd")
      case True
      with False Cons.prems
      have "getClosestPano_loop v g (Some q) ps (Some p) (pointerDistance g q p) = Inr r"
        by (simp add: Let_def pointerDistance_def)
      from Cons.IH [OF this] True False show ?thesis
        by (fastforce split: option.splits)
    next
      case nle: False
      with False Cons.prems
      have "getClosestPano_loop v g (Some q) ps closest cd = Inr r"
        by (simp add: Let_def pointerDistance_def)
      from Cons.IH [OF this] nle False show ?thesis
        by (fastforce split: option.splits)
    qed
  qed
qed


lemma getClosestPano_spec:
  assumes "nearbyPanos s = Some cs"
  shows "(\<exists>c. getClosestPano v g (Some q) s = Inr (Some c) \<and> nearest v g q cs c) \<or>
         (getClosestPano v g (Some q) s = Inr None \<and> (\<forall>c \<in> set cs. \<not> qualifies v g q c))"
proof -
  obtain r where r: "getClosestPano_loop v g (Some q) cs None 9999999 = Inr r"
    using loop_total by blast
  have g: "getClosestPano v g (Some q) s = Inr r"
    using assms r by (simp add: getClosestPano_def)
  show ?thesis
  proof (cases r)
    case None
    with loop_spec [OF r] g show ?thesis by (simp add: qualifies_def)
  next
    case (Some c)
    with loop_spec [OF r] have "nearest v g q cs c"
      by (simp add: nearest_def qualifies_def)
    with g Some show ?thesis by blast
  qed
qed

lemma displays_showMarker: "displays (marker (showMarker c s)) c"
  by (simp add: displays_def showMarker_def)

lemma mouseMovedTo_spec:
  assumes "nearbyPanos s = Some cs" and "movementEnabled s"
  shows "fst (mouseMovedTo v g (Some q) s) = None \<and>
         (if \<exists>c \<in> set cs. qualifies v g q c
          then \<exists>c. nearest v g q cs c \<and> displays (marker (snd (mouseMovedTo v g (Some q) s))) c
          else hidden (marker (snd (mouseMovedTo v g (Some q) s))))"
proof -
  from getClosestPano_spec [OF assms(1), of v g q]
  consider c where "getClosestPano v g (Some q) s = Inr (Some c)" and "nearest v g q cs c"
    | "getClosestPano v g (Some q) s = Inr None" and "\<forall>c \<in> set cs. \<not> qualifies v g q c"
    by blast
  then show ?thesis
  proof cases
    case 1
    then have "\<exists>c \<in> set cs. qualifies v g q c"
      by (auto simp add: nearest_def)
    with 1 assms show ?thesis
      by (auto simp add: mouseMovedTo_def displays_showMarker)
  next
    case 2
    with assms show ?thesis
      by (simp add: mouseMovedTo_def)
  qed
qed

lemma hovering_eq:
  "hovering = constructor\<lparr>nearbyPanos := Some [neighbour]\<rparr>"
  using munich_candidates
  by (simp add: hovering_def updatePanoMarkers_def neighbour_def)

lemma neighbour_on_screen: "\<not> markerPositionIsOffScreen screen (position neighbour)"
  by (simp add: markerPositionIsOffScreen_def Let_def screen_def neighbour_def)

lemma hover_result:
  "onMouseMove screen flatGeo \<lparr>now = 1000, clientX = 410, clientY = 300\<rparr> hovering
     = (None, showMarker neighbour (hovering\<lparr>mouseHasMoved := True, lastProcessedMoveEvent := 1000,
           lastMousePosition := Some \<lparr>latitude = 0, longitude = 1 / 100\<rparr>\<rparr>))"
  by (simp add: onMouseMove_def processMove_def Let_def mouseMovedTo_def getClosestPano_def
      hovering_eq constructor_def updateLimit_def screen_def flatGeo_def neighbour_def
      markerPositionIsOffScreen_def)


lemma hovering_run:
  "fire flatGeo (PanosFetched (munich 0 48) [munich 1 48.0001, munich 2 48.01, munich 3 48])
     constructor = hovering"
  by (simp add: hovering_def)

lemma hovered:
  "fire flatGeo (MouseMove screen \<lparr>now = 1000, clientX = 410, clientY = 300\<rparr>) hovering
     = showMarker neighbour (hovering\<lparr>mouseHasMoved := True, lastProcessedMoveEvent := 1000,
           lastMousePosition := Some \<lparr>latitude = 0, longitude = 1 / 100\<rparr>\<rparr>)"
  by (simp add: hover_result)

lemma clicked:
  "fire flatGeo (Click screen \<lparr>latitude = 0, longitude = 0.01, rightclick = False\<rparr>)
     (showMarker neighbour (hovering\<lparr>mouseHasMoved := True, lastProcessedMoveEvent := 1000,
           lastMousePosition := Some \<lparr>latitude = 0, longitude = 1 / 100\<rparr>\<rparr>))
   = hovering
     \<lparr>marker := \<lparr>latitude = 0, longitude = 0, width = 64 * 0.4945, height = 64 * 0.4945,
                  visible = False, data = None\<rparr>,
      lastMousePosition := Some \<lparr>latitude = 0, longitude = 1 / 100\<rparr>,
      mouseHasMoved := True,
      lastProcessedMoveEvent := 1000,
      movementEnabled := False,
      inFlight := [(munich 1 48.0001, AfterMarkerClick)]\<rparr>"
  by (simp add: onClick_def boundPano_def showMarker_def hideMarker_def Let_def hovering_eq
      constructor_def neighbour_def)

lemma navigating_eq:
  "navigating = hovering
     \<lparr>marker := \<lparr>latitude = 0, longitude = 0, width = 64 * 0.4945, height = 64 * 0.4945,
                  visible = False, data = None\<rparr>,
      lastMousePosition := Some \<lparr>latitude = 0, longitude = 1 / 100\<rparr>,
      mouseHasMoved := True,
      lastProcessedMoveEvent := 1000,
      movementEnabled := False,
      inFlight := [(munich 1 48.0001, AfterMarkerClick)]\<rparr>"
  by (simp only: navigating_def run.simps hovering_run hovered clicked)

text \<open>
  Claim C5. In every state the plugin can reach from its constructor, a pointer move
  that passes the rate limiter and has a position throws nothing and leaves the marker
  on a nearest qualifying candidate on screen, or hidden when no candidate qualifies,
  when no candidate set exists yet, or when navigation input is disabled; in the last
  case the handler leaves the marker as it was, and it was hidden.
\<close>

theorem pointer_move_marker:
  assumes reach: "s = run g es constructor"
    and processed: "real_of_int (now e - lastProcessedMoveEvent s) > updateLimit"
    and vec: "viewerCoordsToVector3 v (clientX e, clientY e) = Some vec"
    and q: "q = vector3ToSphericalCoords v vec"
    and s': "s' = snd (onMouseMove v g e s)"
  shows "fst (onMouseMove v g e s) = None \<and>
         (case nearbyPanos s of
            None \<Rightarrow> hidden (marker s')
          | Some cs \<Rightarrow>
              if movementEnabled s then
                if \<exists>c \<in> set cs. qualifies v g q c
                then \<exists>c. nearest v g q cs c \<and> displays (marker s') c
                else hidden (marker s')
              else hidden (marker s') \<and> marker s' = marker s)"
proof -
  have inv: "gate_inv s"
    using reach gate_inv_run [OF gate_inv_constructor] by simp
  define s2 where "s2 = s\<lparr>mouseHasMoved := True, lastProcessedMoveEvent := now e, lastMousePosition := Some q\<rparr>"
  have eq: "onMouseMove v g e s = mouseMovedTo v g (Some q) s2"
    using processed vec q by (simp add: onMouseMove_def processMove_def Let_def s2_def del: of_int_diff)
  have same: "nearbyPanos s2 = nearbyPanos s" "movementEnabled s2 = movementEnabled s" "marker s2 = marker s"
    by (simp_all add: s2_def)
  show ?thesis
  proof (cases "nearbyPanos s")
    case None
    with inv have "hidden (marker s)" by (simp add: gate_inv_def)
    with None same show ?thesis
      by (simp add: eq s' mouseMovedTo_def)
  next
    case (Some cs)
    show ?thesis
    proof (cases "movementEnabled s")
      case True
      from mouseMovedTo_spec [of s2 cs v g q] Some True same
      show ?thesis by (simp add: eq s')
    next
      case False
      with inv have "hidden (marker s)" by (simp add: gate_inv_def)
      with Some False same show ?thesis
        by (simp add: eq s' mouseMovedTo_def)
    qed
  qed
qed


theorem pointer_move_marker_witness:
  "displays (marker (snd (onMouseMove screen flatGeo \<lparr>now = 1000, clientX = 410, clientY = 300\<rparr> hovering)))
     neighbour \<and>
   \<not> movementEnabled navigating \<and>
   hidden (marker (snd (onMouseMove screen flatGeo \<lparr>now = 1100, clientX = 420, clientY = 300\<rparr> navigating)))"
proof -
  let ?e = "\<lparr>now = 1100, clientX = 420, clientY = 300\<rparr>"
  have a: "displays (marker (snd (onMouseMove screen flatGeo \<lparr>now = 1000, clientX = 410, clientY = 300\<rparr> hovering)))
     neighbour"
    by (simp add: hover_result displays_showMarker)
  have b: "\<not> movementEnabled navigating" and c: "nearbyPanos navigating = Some [neighbour]"
    by (simp_all add: navigating_eq hovering_eq)
  have processed: "real_of_int (now ?e - lastProcessedMoveEvent navigating) > updateLimit"
    by (simp add: navigating_eq updateLimit_def)
  have vec: "viewerCoordsToVector3 screen (clientX ?e, clientY ?e) = Some (420, 300, 0)"
    by (simp add: screen_def)
  from pointer_move_marker [OF navigating_def processed vec refl refl]
  have "hidden (marker (snd (onMouseMove screen flatGeo ?e navigating)))"
    by (auto simp add: b c)
  with a b show ?thesis by simp
qed


subsection \<open>Activation\<close>

text \<open>
  Claim C1. The code does not do what the claim says: when a tap reaches the branch
  without a marker and the search yields no candidate (or the candidate set does not
  exist yet), \<^verbatim>\<open>closest.pano\<close> throws a \<^verbatim>\<open>TypeError\<close>. No navigation starts and the
  state is unchanged, but the activation is an error, not a no-op.
\<close>

theorem tap_without_candidate_throws:
  assumes "\<not> rightclick d" and "movementEnabled s"
    and "\<not> visible (marker s) \<or> data (marker s) = None"
    and "\<not> mouseHasMoved s"
    and "\<forall>c. getClosestPano v g (Some \<lparr>latitude = latitude d, longitude = longitude d\<rparr>) s
            \<noteq> Inr (Some c)"
  shows "onClick v g d s = (Some TypeError, s)"
proof -
  have branch: "boundPano s = None"
    using assms(3) by (auto simp add: boundPano_def)
  show ?thesis
  proof (cases "getClosestPano v g (Some \<lparr>latitude = latitude d, longitude = longitude d\<rparr>) s")
    case (Inl e)
    then show ?thesis
      using assms(1,2,4) branch by (cases e) (simp add: onClick_def)
  next
    case (Inr r)
    with assms(5) have "r = None" by (cases r) auto
    with Inr show ?thesis
      using assms(1,2,4) branch by (simp add: onClick_def)
  qed
qed

lemma deserted_eq: "deserted = constructor\<lparr>nearbyPanos := Some []\<rparr>"
  by (simp add: deserted_def updatePanoMarkers_def)

theorem tap_without_candidate_throws_witness:
  "onClick screen flatGeo \<lparr>latitude = 0, longitude = 0, rightclick = False\<rparr> deserted
     = (Some TypeError, deserted)"
  using tap_without_candidate_throws [of "\<lparr>latitude = 0, longitude = 0, rightclick = False\<rparr>" deserted screen flatGeo]
  by (simp add: deserted_eq constructor_def getClosestPano_def)

lemma getClosestPano_inFlight [simp]:
  "getClosestPano v g pos (s\<lparr>inFlight := xs\<rparr>) = getClosestPano v g pos s"
  by (simp add: getClosestPano_def)

lemma onClick_tap_navigates:
  assumes "\<not> rightclick d" and "movementEnabled s"
    and "\<not> visible (marker s) \<or> data (marker s) = None"
    and "\<not> mouseHasMoved s"
    and "getClosestPano v g (Some \<lparr>latitude = latitude d, longitude = longitude d\<rparr>) s
            = Inr (Some c)"
  shows "onClick v g d s = (None, s\<lparr>inFlight := inFlight s @ [(pano c, AfterTap)]\<rparr>)"
proof -
  have branch: "boundPano s = None"
    using assms(3) by (auto simp add: boundPano_def)
  show ?thesis using assms(1,2,4,5) branch by (simp add: onClick_def)
qed

text \<open>
  Claim C4. The code does not do what the claim says for taps: the branch without a
  marker starts its navigation with the gate left open, so a second tap while the
  first transition is still completing starts a second navigation.
\<close>

theorem second_tap_starts_navigation:
  assumes "\<not> rightclick d" and "movementEnabled s"
    and "\<not> visible (marker s) \<or> data (marker s) = None"
    and "\<not> mouseHasMoved s"
    and "getClosestPano v g (Some \<lparr>latitude = latitude d, longitude = longitude d\<rparr>) s
            = Inr (Some c)"
  shows "run g [Click v d, Click v d] s
           = s\<lparr>inFlight := inFlight s @ [(pano c, AfterTap), (pano c, AfterTap)]\<rparr>"
proof -
  let ?s1 = "s\<lparr>inFlight := inFlight s @ [(pano c, AfterTap)]\<rparr>"
  have first: "fire g (Click v d) s = ?s1"
    using onClick_tap_navigates [OF assms] by simp
  have "onClick v g d ?s1 = (None, ?s1\<lparr>inFlight := inFlight ?s1 @ [(pano c, AfterTap)]\<rparr>)"
    using assms by (intro onClick_tap_navigates) simp_all
  then have "fire g (Click v d) ?s1 = s\<lparr>inFlight := inFlight s @ [(pano c, AfterTap), (pano c, AfterTap)]\<rparr>"
    by simp
  with first show ?thesis by simp
qed

theorem second_tap_starts_navigation_witness:
  "inFlight (run flatGeo [Click screen \<lparr>latitude = 0, longitude = 0.01, rightclick = False\<rparr>,
                          Click screen \<lparr>latitude = 0, longitude = 0.01, rightclick = False\<rparr>] hovering)
     = [(munich 1 48.0001, AfterTap), (munich 1 48.0001, AfterTap)]"
proof -
  have c: "getClosestPano screen flatGeo (Some \<lparr>latitude = 0, longitude = 0.01\<rparr>) hovering
             = Inr (Some neighbour)"
    by (simp add: getClosestPano_def hovering_eq markerPositionIsOffScreen_def Let_def
        screen_def flatGeo_def neighbour_def)
  have "run flatGeo [Click screen \<lparr>latitude = 0, longitude = 0.01, rightclick = False\<rparr>,
                          Click screen \<lparr>latitude = 0, longitude = 0.01, rightclick = False\<rparr>] hovering
     = hovering\<lparr>inFlight := inFlight hovering @ [(pano neighbour, AfterTap), (pano neighbour, AfterTap)]\<rparr>"
    using c by (intro second_tap_starts_navigation) (simp_all add: hovering_eq constructor_def)
  then show ?thesis
    by (simp add: hovering_eq constructor_def neighbour_def)
qed


lemma filter_remove_nth:
  assumes "k < length xs"
  shows "length (filter P (take k xs @ drop (Suc k) xs))
           = length (filter P xs) - (if P (xs ! k) then 1 else 0)"
proof -
  have "take k xs @ xs ! k # drop (Suc k) xs = xs"
    using assms by (simp add: id_take_nth_drop [symmetric])
  then have "length (filter P (take k xs @ xs ! k # drop (Suc k) xs)) = length (filter P xs)"
    by (rule arg_cong)
  then have "length (filter P (take k xs)) + (if P (xs ! k) then 1 else 0)
               + length (filter P (drop (Suc k) xs)) = length (filter P xs)"
    by (simp split: if_splits)
  then show ?thesis
    by simp
qed

lemma mouseMovedTo_inFlight [simp]: "inFlight (snd (mouseMovedTo v g pos s)) = inFlight s"
  by (simp add: mouseMovedTo_def hideMarker_def showMarker_def split: sum.splits option.splits)

lemma mouseMovedTo_enabled [simp]: "movementEnabled (snd (mouseMovedTo v g pos s)) = movementEnabled s"
  by (simp add: mouseMovedTo_def hideMarker_def showMarker_def split: sum.splits option.splits)

lemma markerNavigations_remove:
  assumes "k < length (inFlight s)"
    and "inFlight s' = take k (inFlight s) @ drop (Suc k) (inFlight s)"
  shows "markerNavigations s' =
           markerNavigations s - (if snd (inFlight s ! k) = AfterMarkerClick then 1 else 0)"
  using filter_remove_nth [OF assms(1), of "\<lambda>n. snd n = AfterMarkerClick"] assms(2)
  by (simp add: markerNavigations_def del: filter_append)

lemma markerNavigations_same: "inFlight s' = inFlight s \<Longrightarrow> markerNavigations s' = markerNavigations s"
  by (simp add: markerNavigations_def)

lemma gated_onMouseMove: "gated s \<Longrightarrow> gated (snd (onMouseMove v g e s))"
proof -
  assume g: "gated s"
  have "inFlight (snd (onMouseMove v g e s)) = inFlight s"
    and "movementEnabled (snd (onMouseMove v g e s)) = movementEnabled s"
    by (simp_all add: onMouseMove_def processMove_def Let_def hideMarker_def split: option.splits)
  with g show ?thesis
    by (simp add: gated_def markerNavigations_def)
qed

lemma gated_onClick: "gated s \<Longrightarrow> gated (snd (onClick v g d s))"
proof -
  assume g: "gated s"
  from onClick_outcomes [of v g d s]
  consider "snd (onClick v g d s) = s"
    | p where "snd (onClick v g d s) = s\<lparr>inFlight := inFlight s @ [(p, AfterTap)]\<rparr>"
    | p where "movementEnabled s" and "snd (onClick v g d s) =
       (hideMarker s)\<lparr>movementEnabled := False, inFlight := inFlight s @ [(p, AfterMarkerClick)]\<rparr>"
    by blast
  then show ?thesis
  proof cases
    case 1
    with g show ?thesis by simp
  next
    case 2
    with g show ?thesis by (simp add: gated_def markerNavigations_def)
  next
    case 3
    with g show ?thesis by (simp add: gated_def markerNavigations_def)
  qed
qed

lemma gated_onClick_resume: "gated s \<Longrightarrow> gated (snd (onClick_resume v g k s))"
proof (cases "k < length (inFlight s)")
  case False
  assume "gated s"
  with False show ?thesis by (simp add: onClick_resume_def)
next
  case True
  assume g: "gated s"
  let ?s1 = "s\<lparr>inFlight := take k (inFlight s) @ drop (Suc k) (inFlight s),
               moved := moved s @ [fst (inFlight s ! k)]\<rparr>"
  have n: "markerNavigations ?s1 =
             markerNavigations s - (if snd (inFlight s ! k) = AfterMarkerClick then 1 else 0)"
    by (rule markerNavigations_remove [OF True]) simp
  show ?thesis
  proof (cases "snd (inFlight s ! k)")
    case AfterTap
    then have "snd (onClick_resume v g k s) = ?s1"
      using True by (simp add: onClick_resume_def Let_def)
    moreover have "gated ?s1"
      using g n AfterTap by (simp add: gated_def)
    ultimately show ?thesis by simp
  next
    case AfterMarkerClick
    let ?s2 = "snd (mouseMovedTo v g (lastMousePosition ?s1) (?s1\<lparr>movementEnabled := True\<rparr>))"
    have r: "snd (onClick_resume v g k s) = ?s2"
      using True AfterMarkerClick by (simp add: onClick_resume_def Let_def)
    have "markerNavigations ?s2 = markerNavigations ?s1"
      by (rule markerNavigations_same) simp
    moreover have "markerNavigations ?s1 = 0"
      using g n AfterMarkerClick by (simp add: gated_def split: if_splits)
    moreover have "movementEnabled ?s2"
      by simp
    ultimately show ?thesis
      by (simp add: r gated_def)
  qed
qed

lemma gated_onClick_abandon: "gated s \<Longrightarrow> gated (onClick_abandon k s)"
proof (cases "k < length (inFlight s)")
  case False
  assume "gated s"
  with False show ?thesis by (simp add: onClick_abandon_def)
next
  case True
  assume g: "gated s"
  let ?s1 = "s\<lparr>inFlight := take k (inFlight s) @ drop (Suc k) (inFlight s)\<rparr>"
  have "markerNavigations ?s1 \<le> markerNavigations s"
    using markerNavigations_remove [OF True, of ?s1] by simp
  with g True show ?thesis
    by (simp add: onClick_abandon_def gated_def split: if_splits)
qed

lemma gated_fire: "gated s \<Longrightarrow> gated (fire g e s)"
  by (cases e)
    (simp_all add: gated_onMouseMove gated_onClick gated_onClick_resume gated_onClick_abandon,
     simp add: gated_def markerNavigations_def updatePanoMarkers_def)

lemma gated_run: "gated s \<Longrightarrow> gated (run g es s)"
  by (induction es arbitrary: s) (simp_all add: gated_fire)

text \<open>
  The gate does hold for clicks on the marker: at most one navigation started by such a
  click is in flight, and a click while the gate is closed changes nothing.
\<close>

lemma marker_navigation_single: "markerNavigations (run g es constructor) \<le> 1"
proof -
  have "gated constructor"
    by (simp add: gated_def markerNavigations_def constructor_def)
  from gated_run [OF this, of g es] show ?thesis
    by (simp add: gated_def split: if_splits)
qed

lemma click_ignored_while_disabled: "\<not> movementEnabled s \<Longrightarrow> fire g (Click v d) s = s"
  by (simp add: onClick_def)

section \<open>Properties of the rendering adapter\<close>

subsection \<open>The mesh\<close>

lemma faceParameters_length: "length (faceParameters th scale_by p) = 4"
  by (simp add: faceParameters_def Let_def)

lemma buildGeometries_nth:
  "i < 4 \<Longrightarrow>
   buildGeometries th scale_by p ! i =
     setSideUV (geometry_scale (- 1) 1 1 (SphereGeometry th (faceParameters th scale_by p ! i))) i"
  by (simp add: buildGeometries_def faceParameters_length nth_enumerate_eq)

lemma uv_setSideUV:
  "uv (setSideUV geom faceIdx) =
     map (\<lambda>(u, v). (u * (if faceIdx mod 2 = 0 then 1 - 1 / 22 else 1 - 1 / 12), v)) (uv geom)"
  by (simp add: setSideUV_def Let_def)

lemma uv_geometry_scale: "uv (geometry_scale sx sy sz geom) = uv geom"
  by (simp add: geometry_scale_def)

lemma phiLength:
  "i < 4 \<Longrightarrow> faceParameters th scale_by p ! i ! 4 = Num (degToRad (if i mod 2 = 0 then 120 else 60))"
proof -
  assume "i < 4"
  then consider "i = 0" | "i = 1" | "i = 2" | "i = 3" by linarith
  then show ?thesis
    by cases (simp_all add: faceParameters_def Let_def)
qed

text \<open>
  Claim C7. In the mesh \<^verbatim>\<open>createMesh\<close> builds, faces 0 and 2 span 120 degrees and
  faces 1 and 3 span 60 degrees, and every texture coordinate of a side face is that of
  the sphere segment with U multiplied by 1 - 1/22 on the wide faces and by 1 - 1/12 on
  the narrow ones and V unchanged; so an original U of 1 becomes 1 - 1/22 or 1 - 1/12.
\<close>

theorem side_face_uv_trim:
  assumes "createMesh th scale_by st = (r, st')"
    and "i < 4"
    and "original = uv (SphereGeometry th (faceParameters th scale_by (panorama st) ! i))"
    and "trimmed = uv (geometries (store st' r) ! i)"
    and "j < length original"
  shows "faceParameters th scale_by (panorama st) ! i ! 4
           = Num (degToRad (if i = 0 \<or> i = 2 then 120 else 60)) \<and>
         length trimmed = length original \<and>
         fst (trimmed ! j) = fst (original ! j) * (if i = 0 \<or> i = 2 then 1 - 1 / 22 else 1 - 1 / 12) \<and>
         snd (trimmed ! j) = snd (original ! j) \<and>
         (fst (original ! j) = 1 \<longrightarrow>
            fst (trimmed ! j) = (if i = 0 \<or> i = 2 then 1 - 1 / 22 else 1 - 1 / 12))"
proof -
  have even: "(i mod 2 = 0) = (i = 0 \<or> i = 2)"
    using assms(2) by presburger
  have "geometries (store st' r) = buildGeometries th scale_by (panorama st)"
    using assms(1) by (auto simp add: createMesh_def Let_def)
  then have t: "trimmed = map (\<lambda>(u, v). (u * (if i = 0 \<or> i = 2 then 1 - 1 / 22 else 1 - 1 / 12), v)) original"
    using assms(2,3,4) by (simp add: buildGeometries_nth uv_setSideUV uv_geometry_scale even)
  have "trimmed ! j = (fst (original ! j) * (if i = 0 \<or> i = 2 then 1 - 1 / 22 else 1 - 1 / 12), snd (original ! j))"
    using assms(5) by (simp add: t case_prod_beta)
  then show ?thesis
    using phiLength [OF assms(2), of th scale_by "panorama st"] t by (simp add: even)
qed

lemma buildGeometries_car:
  "buildGeometries flatThree 1 (meta_panorama (car n u)) = carGeometries"
  by (simp add: buildGeometries_def faceParameters_def Let_def enumerate_eq_zip upt_rec
      setSideUV_def geometry_scale_def flatThree_def car_def element_def carGeometries_def)

theorem side_face_uv_trim_witness:
  "fst (uv (geometries (store (snd (createMesh flatThree 1 started)) (fst (createMesh flatThree 1 started))) ! 0) ! 1)
     = 1 - 1 / 22 \<and>
   fst (uv (geometries (store (snd (createMesh flatThree 1 started)) (fst (createMesh flatThree 1 started))) ! 1) ! 1)
     = 1 - 1 / 12"
proof -
  have o: "uv (SphereGeometry flatThree ps) = [(0, 0), (1, 1)]" for ps
    by (simp add: flatThree_def)
  have "fst (uv (geometries (store (snd (createMesh flatThree 1 started)) (fst (createMesh flatThree 1 started))) ! 0) ! 1)
     = 1 - 1 / 22"
    using side_face_uv_trim [where th = flatThree and scale_by = 1 and st = started and i = 0 and j = 1,
        OF surjective_pairing _ refl refl]
    by (simp add: o)
  moreover have "fst (uv (geometries (store (snd (createMesh flatThree 1 started)) (fst (createMesh flatThree 1 started))) ! 1) ! 1)
     = 1 - 1 / 12"
    using side_face_uv_trim [where th = flatThree and scale_by = 1 and st = started and i = 1 and j = 1,
        OF surjective_pairing _ refl refl]
    by (simp add: o)
  ultimately show ?thesis by simp
qed


lemma element_not_NaN [simp]: "element xs i \<noteq> NaN"
  by (simp add: element_def)

lemma recreate_same:
  assumes "\<not> strictNotEqual (previousThetaLength st) (element (latitude_size (panorama st)) 0)"
  shows "recreateMeshIfNecessary th st = st\<lparr>previousThetaLength := element (latitude_size (panorama st)) 0\<rparr>"
  using assms by (simp add: recreateMeshIfNecessary_def Let_def)

lemma recreate_rebuilt:
  assumes "strictNotEqual (previousThetaLength st) (element (latitude_size (panorama st)) 0)"
  shows "recreateMeshIfNecessary th st =
     st\<lparr>renderer_scene := remove1 (group_ref (renderer_meshContainer st)) (renderer_scene st)
                              @ [Suc (next_ref st)],
        meshesForFrustum := buildGeometries th 1 (panorama st),
        store := (store st)(next_ref st :=
                   \<lparr>geometries = buildGeometries th 1 (panorama st),
                    material = replicate FACES (Some \<lparr>map_tex = None\<rparr>),
                    psvSphere = True\<rparr>),
        next_ref := Suc (Suc (next_ref st)),
        mesh := Some (next_ref st),
        renderer_mesh := next_ref st,
        renderer_meshContainer := \<lparr>group_ref = Suc (next_ref st), children = [next_ref st]\<rparr>,
        previousThetaLength := element (latitude_size (panorama st)) 0\<rparr>"
  using assms by (simp add: recreateMeshIfNecessary_def createMesh_def Let_def)


subsection \<open>Refresh requests\<close>

lemma slot_Some:
  "slot st i = Some m \<Longrightarrow> \<exists>r. mesh st = Some r \<and> i < length (material (store st r)) \<and>
      material (store st r) ! i = Some m"
  by (auto simp add: slot_def split: option.splits if_splits)

lemma slot_assignMaterial:
  assumes "mesh st = Some r" and "i < length (material (store st r))"
  shows "slot (assignMaterial r i m st) j = (if j = i then Some m else slot st j)"
  using assms by (simp add: slot_def assignMaterial_def assign_def)

lemma assignMaterial_fields [simp]:
  "pending (assignMaterial r i m st) = pending st"
  "mesh (assignMaterial r i m st) = mesh st"
  "endpoint (assignMaterial r i m st) = endpoint st"
  "url (assignMaterial r i m st) = url st"
  by (simp_all add: assignMaterial_def)

lemma refreshFaces_single:
  "refreshFaces [i] zoom st =
     (case (mesh st, slot st i) of
        (Some r, Some m) \<Rightarrow>
          (case map_tex m of
             None \<Rightarrow> (None, st)
           | Some t \<Rightarrow>
               if userData_zoom t > zoom \<and> \<not> userData_refreshing t
               then (None, issued r i zoom m t st)
               else (None, st))
      | _ \<Rightarrow> (Some TypeError, st))"
  by (simp add: refreshFaces.simps(2) issued_def Let_def loadOneTexture_def split: option.splits)

lemma refreshFaces_Cons:
  "refreshFaces (i # faces) zoom st =
     (case refreshFaces [i] zoom st of
        (Some e, st') \<Rightarrow> (Some e, st')
      | (None, st') \<Rightarrow> refreshFaces faces zoom st')"
  by (simp add: refreshFaces.simps(2) Let_def split: option.splits)

lemma slotTexture_issued:
  assumes "mesh st = Some r" and "slot st i = Some m"
  shows "slotTexture (issued r i zoom m t st) j =
           (if j = i then Some (t\<lparr>userData_refreshing := True\<rparr>) else slotTexture st j)"
proof -
  from slot_Some [OF assms(2)] assms(1) have "i < length (material (store st r))" by auto
  then show ?thesis
    using assms(1) by (simp add: slotTexture_def issued_def slot_def assignMaterial_def assign_def)
qed

lemma pendingFor_issued:
  "pendingFor (issued r i zoom m t st) j =
     pendingFor st j @ (if j = i then [\<lparr>requested = loadOneTexture zoom i st, oldUrl = userData_url t\<rparr>] else [])"
  by (simp add: pendingFor_def issued_def loadOneTexture_def)

lemma url_issued [simp]: "url (issued r i zoom m t st) = url st"
  by (simp add: issued_def)

lemma slotUrl_issued:
  assumes "mesh st = Some r" and "slot st i = Some m" and "map_tex m = Some t"
  shows "slotUrl (issued r i zoom m t st) j = slotUrl st j"
proof -
  have "slotTexture st i = Some t"
    using assms(2,3) by (simp add: slotTexture_def)
  then show ?thesis
    by (simp add: slotUrl_def slotTexture_issued [OF assms(1,2)])
qed

lemma matchingFor_issued:
  assumes "mesh st = Some r" and "slot st i = Some m" and "map_tex m = Some t"
  shows "matchingFor (issued r i zoom m t st) j =
     matchingFor st j @ (if j = i then [\<lparr>requested = loadOneTexture zoom i st, oldUrl = userData_url t\<rparr>]
                         else [])"
proof -
  let ?new = "\<lparr>requested = loadOneTexture zoom i st, oldUrl = userData_url t\<rparr>"
  have tag: "slotUrl st i = Some (userData_url t)"
    using assms(2,3) by (simp add: slotUrl_def slotTexture_def)
  have p: "pending (issued r i zoom m t st) = pending st @ [?new]"
    by (simp add: issued_def)
  have "matchingFor (issued r i zoom m t st) j =
      filter (\<lambda>f. url_faceIdx (requested f) = j \<and> slotUrl st j = Some (oldUrl f)) (pending st @ [?new])"
    unfolding matchingFor_def slotUrl_issued [OF assms] p ..
  with tag show ?thesis
    by (simp add: matchingFor_def loadOneTexture_def)
qed

lemma upgrade_inv_unfold:
  "upgrade_inv st \<Longrightarrow>
     length (matchingFor st i) \<le> 1 \<and>
     (\<forall>f \<in> set (matchingFor st i).
        \<exists>t. slotTexture st i = Some t \<and> userData_refreshing t \<and>
            url_zoom (requested f) < userData_zoom t) \<and>
     (\<forall>f \<in> set (pendingFor st i).
        oldUrl f = url st \<longrightarrow> slotUrl st i = None \<or> slotUrl st i = Some (url st))"
  by (simp add: upgrade_inv_def)

lemma upgrade_inv_issued:
  assumes inv: "upgrade_inv st" and "mesh st = Some r" and "slot st i = Some m"
    and "map_tex m = Some t" and "userData_zoom t > zoom" and "\<not> userData_refreshing t"
  shows "upgrade_inv (issued r i zoom m t st)"
proof -
  let ?s = "issued r i zoom m t st"
  let ?new = "\<lparr>requested = loadOneTexture zoom i st, oldUrl = userData_url t\<rparr>"
  have tex: "slotTexture st i = Some t"
    using assms(3,4) by (simp add: slotTexture_def)
  then have tag: "slotUrl st i = Some (userData_url t)"
    by (simp add: slotUrl_def)
  note urls = slotUrl_issued [OF assms(2,3,4)]
  note texs = slotTexture_issued [OF assms(2,3)]
  note matching = matchingFor_issued [OF assms(2,3,4)]
  have none: "matchingFor st i = []"
  proof (cases "matchingFor st i")
    case (Cons f fs)
    then have "f \<in> set (matchingFor st i)" by simp
    with upgrade_inv_unfold [OF inv, of i]
    obtain t' where "slotTexture st i = Some t'" and "userData_refreshing t'"
      by blast
    with tex assms(6) show ?thesis by simp
  qed
  have "length (matchingFor ?s j) \<le> 1 \<and>
        (\<forall>f \<in> set (matchingFor ?s j).
           \<exists>t'. slotTexture ?s j = Some t' \<and> userData_refreshing t' \<and>
               url_zoom (requested f) < userData_zoom t') \<and>
        (\<forall>f \<in> set (pendingFor ?s j).
           oldUrl f = url ?s \<longrightarrow> slotUrl ?s j = None \<or> slotUrl ?s j = Some (url ?s))" for j
  proof (cases "j = i")
    case True
    have "\<forall>f \<in> set (pendingFor ?s i).
           oldUrl f = url ?s \<longrightarrow> slotUrl ?s i = None \<or> slotUrl ?s i = Some (url ?s)"
      using upgrade_inv_unfold [OF inv, of i] tag
      by (auto simp add: pendingFor_issued urls)
    with True none assms(5) show ?thesis
      by (simp add: matching texs loadOneTexture_def)
  next
    case False
    with upgrade_inv_unfold [OF inv, of j] show ?thesis
      by (simp add: matching texs urls pendingFor_issued)
  qed
  then show ?thesis
    by (simp add: upgrade_inv_def)
qed

declare refreshFaces.simps(2) [simp del]

lemma refreshFaces_single_cases:
  obtains (throws) "refreshFaces [i] zoom st = (Some TypeError, st)"
      and "mesh st = None \<or> slot st i = None"
    | (skips) "refreshFaces [i] zoom st = (None, st)"
    | (issues) r m t where "refreshFaces [i] zoom st = (None, issued r i zoom m t st)"
      and "mesh st = Some r" and "slot st i = Some m" and "map_tex m = Some t"
      and "userData_zoom t > zoom" and "\<not> userData_refreshing t"
proof (cases "mesh st")
  case None
  then have "refreshFaces [i] zoom st = (Some TypeError, st)"
    by (simp add: refreshFaces_single)
  with None throws show ?thesis by blast
next
  case (Some r)
  note r = this
  show ?thesis
  proof (cases "slot st i")
    case None
    with r have "refreshFaces [i] zoom st = (Some TypeError, st)"
      by (simp add: refreshFaces_single)
    with None throws show ?thesis by blast
  next
    case (Some m)
    note m = this
    show ?thesis
    proof (cases "map_tex m")
      case None
      with r m have "refreshFaces [i] zoom st = (None, st)"
        by (simp add: refreshFaces_single)
      with skips show ?thesis by blast
    next
      case (Some t)
      show ?thesis
      proof (cases "userData_zoom t > zoom \<and> \<not> userData_refreshing t")
        case True
        with r m Some have "refreshFaces [i] zoom st = (None, issued r i zoom m t st)"
          by (simp add: refreshFaces_single)
        with r m Some True issues show ?thesis by blast
      next
        case False
        with r m Some have "refreshFaces [i] zoom st = (None, st)"
          by (auto simp add: refreshFaces_single)
        with skips show ?thesis by blast
      qed
    qed
  qed
qed

lemma steps_down_refl: "steps_down st st"
  by (simp add: steps_down_def)

lemma steps_down_not_worse: "steps_down st st' \<Longrightarrow> not_worse st st'"
  by (fastforce simp add: steps_down_def not_worse_def)

lemma not_worse_refl: "not_worse st st"
  by (simp add: not_worse_def)

lemma not_worse_trans: "not_worse a b \<Longrightarrow> not_worse b c \<Longrightarrow> not_worse a c"
  unfolding not_worse_def by (meson le_trans)

lemma steps_down_issued:
  assumes "mesh st = Some r" and "slot st i = Some m" and "map_tex m = Some t"
  shows "steps_down st (issued r i zoom m t st)"
proof -
  have "slotTexture st i = Some t"
    using assms(2,3) by (simp add: slotTexture_def)
  then show ?thesis
    by (simp add: steps_down_def slotTexture_issued [OF assms(1,2)])
qed

lemma refreshFaces_single_inv:
  assumes "upgrade_inv st"
  shows "upgrade_inv (snd (refreshFaces [i] zoom st)) \<and> steps_down st (snd (refreshFaces [i] zoom st))"
proof (cases rule: refreshFaces_single_cases [where i = i and zoom = zoom and st = st])
  case throws
  with assms show ?thesis by (simp add: steps_down_refl)
next
  case skips
  with assms show ?thesis by (simp add: steps_down_refl)
next
  case (issues r m t)
  with assms upgrade_inv_issued [of st r i m t zoom] steps_down_issued [of st r i m t zoom]
  show ?thesis by simp
qed

lemma steps_down_trans_marks:
  assumes "steps_down a b" and "steps_down b c"
  shows "steps_down a c"
  unfolding steps_down_def
proof (intro allI impI)
  fix i t
  assume "slotTexture a i = Some t"
  with assms(1) obtain t1 where t1: "slotTexture b i = Some t1"
    and d1: "userData_zoom t1 < userData_zoom t \<or> t1 = t \<or> t1 = t\<lparr>userData_refreshing := True\<rparr>"
    unfolding steps_down_def by blast
  from assms(2) t1 obtain t2 where t2: "slotTexture c i = Some t2"
    and d2: "userData_zoom t2 < userData_zoom t1 \<or> t2 = t1 \<or> t2 = t1\<lparr>userData_refreshing := True\<rparr>"
    unfolding steps_down_def by blast
  from d1 d2 have "userData_zoom t2 < userData_zoom t \<or> t2 = t \<or> t2 = t\<lparr>userData_refreshing := True\<rparr>"
    by auto
  with t2 show "\<exists>t'. slotTexture c i = Some t' \<and>
      (userData_zoom t' < userData_zoom t \<or> t' = t \<or> t' = t\<lparr>userData_refreshing := True\<rparr>)"
    by blast
qed

lemma refreshFaces_inv:
  "upgrade_inv st \<Longrightarrow>
   upgrade_inv (snd (refreshFaces faces zoom st)) \<and> steps_down st (snd (refreshFaces faces zoom st))"
proof (induction faces arbitrary: st)
  case Nil
  then show ?case by (simp add: steps_down_refl)
next
  case (Cons i faces)
  obtain e st1 where one: "refreshFaces [i] zoom st = (e, st1)"
    by (cases "refreshFaces [i] zoom st") auto
  from refreshFaces_single_inv [OF Cons.prems, of i zoom] one
  have inv1: "upgrade_inv st1" and down1: "steps_down st st1" by simp_all
  show ?case
  proof (cases e)
    case (Some x)
    with one inv1 down1 show ?thesis
      by (simp add: refreshFaces_Cons [of i faces])
  next
    case None
    with one have "refreshFaces (i # faces) zoom st = refreshFaces faces zoom st1"
      by (simp add: refreshFaces_Cons [of i faces])
    with Cons.IH [OF inv1] down1 show ?thesis
      by (auto intro: steps_down_trans_marks)
  qed
qed

lemma refresh_inv:
  "upgrade_inv st \<Longrightarrow> upgrade_inv (snd (refresh v st)) \<and> steps_down st (snd (refresh v st))"
  by (simp add: refresh_def Let_def refreshFaces_inv steps_down_refl split: option.splits)

lemma requests_refl: "requests zoom st st []"
  by (simp add: requests_def)

lemma pending_issued:
  "pending (issued r i zoom m t st) =
     pending st @ [\<lparr>requested = loadOneTexture zoom i st, oldUrl = userData_url t\<rparr>]"
  by (simp add: issued_def)

lemma requests_issued:
  assumes "mesh st = Some r" and "slot st i = Some m" and "map_tex m = Some t"
    and "\<not> userData_refreshing t" and "zoom < userData_zoom t"
  shows "requests zoom st (issued r i zoom m t st)
           [\<lparr>requested = loadOneTexture zoom i st, oldUrl = userData_url t\<rparr>]"
proof -
  have tex: "slotTexture st i = Some t"
    using assms(2,3) by (simp add: slotTexture_def)
  show ?thesis
    using tex assms(4,5)
    by (simp add: requests_def slotTexture_issued [OF assms(1,2)] pending_issued
        loadOneTexture_def)
qed

lemma requests_trans:
  assumes a: "requests zoom st st1 new1" and b: "requests zoom st1 st2 new2"
  shows "requests zoom st st2 (new1 @ new2)"
proof -
  have a3: "(\<exists>f \<in> set new1. url_faceIdx (requested f) = i) \<or> slotTexture st1 i = slotTexture st i" for i
    using a by (simp add: requests_def)
  have b3: "(\<exists>f \<in> set new2. url_faceIdx (requested f) = i) \<or> slotTexture st2 i = slotTexture st1 i" for i
    using b by (simp add: requests_def)
  have a2: "\<exists>t. slotTexture st (url_faceIdx (requested f)) = Some t \<and>
            \<not> userData_refreshing t \<and> zoom < userData_zoom t \<and> oldUrl f = userData_url t \<and>
            url_zoom (requested f) = zoom \<and>
            slotTexture st1 (url_faceIdx (requested f)) = Some (t\<lparr>userData_refreshing := True\<rparr>)"
    if "f \<in> set new1" for f
    using a that by (simp add: requests_def)
  have b2: "\<exists>t. slotTexture st1 (url_faceIdx (requested f)) = Some t \<and>
            \<not> userData_refreshing t \<and> zoom < userData_zoom t \<and> oldUrl f = userData_url t \<and>
            url_zoom (requested f) = zoom \<and>
            slotTexture st2 (url_faceIdx (requested f)) = Some (t\<lparr>userData_refreshing := True\<rparr>)"
    if "f \<in> set new2" for f
    using b that by (simp add: requests_def)
  have disjoint: "url_faceIdx (requested f1) \<noteq> url_faceIdx (requested f2)"
    if "f1 \<in> set new1" and "f2 \<in> set new2" for f1 f2
  proof
    assume eq: "url_faceIdx (requested f1) = url_faceIdx (requested f2)"
    from a2 [OF that(1)] obtain t where
      "slotTexture st1 (url_faceIdx (requested f1)) = Some (t\<lparr>userData_refreshing := True\<rparr>)"
      by blast
    moreover from b2 [OF that(2)] obtain t' where
      "slotTexture st1 (url_faceIdx (requested f2)) = Some t'" and "\<not> userData_refreshing t'"
      by blast
    ultimately show False using eq by auto
  qed
  have p: "pending st2 = pending st @ new1 @ new2"
    using a b by (simp add: requests_def)
  have n1: "\<exists>t. slotTexture st (url_faceIdx (requested f)) = Some t \<and>
            \<not> userData_refreshing t \<and> zoom < userData_zoom t \<and> oldUrl f = userData_url t \<and>
            url_zoom (requested f) = zoom \<and>
            slotTexture st2 (url_faceIdx (requested f)) = Some (t\<lparr>userData_refreshing := True\<rparr>)"
    if "f \<in> set new1" for f
  proof -
    from disjoint [OF that] b3 [of "url_faceIdx (requested f)"]
    have "slotTexture st2 (url_faceIdx (requested f)) = slotTexture st1 (url_faceIdx (requested f))"
      by metis
    with a2 [OF that] show ?thesis by simp
  qed
  have n2: "\<exists>t. slotTexture st (url_faceIdx (requested f)) = Some t \<and>
            \<not> userData_refreshing t \<and> zoom < userData_zoom t \<and> oldUrl f = userData_url t \<and>
            url_zoom (requested f) = zoom \<and>
            slotTexture st2 (url_faceIdx (requested f)) = Some (t\<lparr>userData_refreshing := True\<rparr>)"
    if "f \<in> set new2" for f
  proof -
    from disjoint [OF _ that] a3 [of "url_faceIdx (requested f)"]
    have "slotTexture st1 (url_faceIdx (requested f)) = slotTexture st (url_faceIdx (requested f))"
      by metis
    with b2 [OF that] show ?thesis by simp
  qed
  have s: "(\<exists>f \<in> set (new1 @ new2). url_faceIdx (requested f) = i) \<or>
           slotTexture st2 i = slotTexture st i" for i
    using a3 [of i] b3 [of i] by auto
  show ?thesis
    unfolding requests_def
  proof (intro conjI ballI allI)
    show "pending st2 = pending st @ new1 @ new2" by (rule p)
  next
    fix f assume "f \<in> set (new1 @ new2)"
    then have "f \<in> set new1 \<or> f \<in> set new2" by simp
    then show "\<exists>t. slotTexture st (url_faceIdx (requested f)) = Some t \<and>
            \<not> userData_refreshing t \<and> zoom < userData_zoom t \<and> oldUrl f = userData_url t \<and>
            url_zoom (requested f) = zoom \<and>
            slotTexture st2 (url_faceIdx (requested f)) = Some (t\<lparr>userData_refreshing := True\<rparr>)"
      using n1 n2 by blast
  next
    fix i
    show "(\<exists>f \<in> set (new1 @ new2). url_faceIdx (requested f) = i) \<or>
           slotTexture st2 i = slotTexture st i"
      by (rule s)
  qed
qed

lemma refreshFaces_requests:
  "\<exists>new. requests zoom st (snd (refreshFaces faces zoom st)) new \<and>
         (\<forall>f \<in> set new. url_faceIdx (requested f) \<in> set faces)"
proof (induction faces arbitrary: st)
  case Nil
  show ?case using requests_refl [of zoom st] by auto
next
  case (Cons i faces)
  show ?case
  proof (cases rule: refreshFaces_single_cases [where i = i and zoom = zoom and st = st])
    case throws
    then have "snd (refreshFaces (i # faces) zoom st) = st"
      by (simp add: refreshFaces_Cons [of i faces])
    with requests_refl [of zoom st] show ?thesis by auto
  next
    case skips
    then have "refreshFaces (i # faces) zoom st = refreshFaces faces zoom st"
      by (simp add: refreshFaces_Cons [of i faces])
    with Cons.IH [of st] show ?thesis by auto
  next
    case (issues r m t)
    let ?st1 = "issued r i zoom m t st"
    let ?f = "\<lparr>requested = loadOneTexture zoom i st, oldUrl = userData_url t\<rparr>"
    from issues have e: "refreshFaces (i # faces) zoom st = refreshFaces faces zoom ?st1"
      by (simp add: refreshFaces_Cons [of i faces])
    from Cons.IH [of ?st1] obtain new where
      n: "requests zoom ?st1 (snd (refreshFaces faces zoom ?st1)) new"
      and m: "\<forall>f \<in> set new. url_faceIdx (requested f) \<in> set faces"
      by blast
    from requests_trans [OF requests_issued [OF issues(2,3,4,6,5)] n]
    have "requests zoom st (snd (refreshFaces (i # faces) zoom st)) (?f # new)"
      by (simp add: e)
    moreover have "\<forall>f \<in> set (?f # new). url_faceIdx (requested f) \<in> set (i # faces)"
      using m by (simp add: loadOneTexture_def)
    ultimately show ?thesis by blast
  qed
qed

lemma requests_new:
  "requests zoom st st' new \<Longrightarrow> new = drop (length (pending st)) (pending st')"
  by (simp add: requests_def)

subsection \<open>Completions and runs of events\<close>

lemma slot_pending [simp]: "slot (st\<lparr>pending := p\<rparr>) j = slot st j"
  by (simp add: slot_def split: option.splits)

lemma slotTexture_pending [simp]: "slotTexture (st\<lparr>pending := p\<rparr>) j = slotTexture st j"
  by (simp add: slotTexture_def)

lemma refreshFaces_then_cases:
  obtains (throws) "refreshFaces_then f tx st = (Some TypeError, st)"
      and "slotTexture st (url_faceIdx (requested f)) = None"
    | (stale) t where "refreshFaces_then f tx st = (None, st)"
      and "slotTexture st (url_faceIdx (requested f)) = Some t" and "userData_url t \<noteq> oldUrl f"
    | (applied) r t where "refreshFaces_then f tx st =
        (None, (assignMaterial r (url_faceIdx (requested f))
                  \<lparr>map_tex = Some (tx\<lparr>userData_refreshing := False\<rparr>)\<rparr> st)\<lparr>needsUpdate := True\<rparr>)"
      and "mesh st = Some r" and "url_faceIdx (requested f) < length (material (store st r))"
      and "slotTexture st (url_faceIdx (requested f)) = Some t" and "userData_url t = oldUrl f"
proof (cases "mesh st")
  case None
  then have "refreshFaces_then f tx st = (Some TypeError, st)"
    and "slotTexture st (url_faceIdx (requested f)) = None"
    by (simp_all add: refreshFaces_then_def slotTexture_def slot_def)
  with throws show ?thesis by blast
next
  case (Some r)
  note r = this
  show ?thesis
  proof (cases "slot st (url_faceIdx (requested f))")
    case None
    with r have "refreshFaces_then f tx st = (Some TypeError, st)"
      and "slotTexture st (url_faceIdx (requested f)) = None"
      by (simp_all add: refreshFaces_then_def slotTexture_def)
    with throws show ?thesis by blast
  next
    case (Some m)
    note m = this
    from slot_Some [OF m] r have len: "url_faceIdx (requested f) < length (material (store st r))"
      by auto
    show ?thesis
    proof (cases "map_tex m")
      case None
      with r m have "refreshFaces_then f tx st = (Some TypeError, st)"
        and "slotTexture st (url_faceIdx (requested f)) = None"
        by (simp_all add: refreshFaces_then_def slotTexture_def)
      with throws show ?thesis by blast
    next
      case (Some t)
      with m have tex: "slotTexture st (url_faceIdx (requested f)) = Some t"
        by (simp add: slotTexture_def)
      show ?thesis
      proof (cases "userData_url t = oldUrl f")
        case True
        with r m Some have "refreshFaces_then f tx st =
          (None, (assignMaterial r (url_faceIdx (requested f))
                  \<lparr>map_tex = Some (tx\<lparr>userData_refreshing := False\<rparr>)\<rparr> st)\<lparr>needsUpdate := True\<rparr>)"
          by (simp add: refreshFaces_then_def Let_def)
        with r len tex True applied show ?thesis by blast
      next
        case False
        with r m Some have "refreshFaces_then f tx st = (None, st)"
          by (simp add: refreshFaces_then_def Let_def)
        with tex False stale show ?thesis by blast
      qed
    qed
  qed
qed

lemma slotTexture_installed:
  assumes "mesh st = Some r" and "i < length (material (store st r))"
  shows "slotTexture ((assignMaterial r i \<lparr>map_tex = Some t\<rparr> st)\<lparr>needsUpdate := True\<rparr>) j =
           (if j = i then Some t else slotTexture st j)"
  using assms by (simp add: slotTexture_def slot_def assignMaterial_def assign_def)

lemma slot_installed:
  assumes "mesh st = Some r" and "i < length (material (store st r))"
  shows "slot ((assignMaterial r i m st)\<lparr>needsUpdate := True\<rparr>) j =
           (if j = i then Some m else slot st j)"
  using assms by (simp add: slot_def assignMaterial_def assign_def)

lemma pendingFor_installed [simp]:
  "pendingFor ((assignMaterial r i m st)\<lparr>needsUpdate := True\<rparr>) j = pendingFor st j"
  by (simp add: pendingFor_def)

lemma filter_remove_subset:
  "set (filter P (take k xs @ drop (Suc k) xs)) \<subseteq> set (filter P xs)"
  by (auto dest: in_set_takeD in_set_dropD)

lemma filter_remove_length:
  "length (filter P (take k xs @ drop (Suc k) xs)) \<le> length (filter P xs)"
proof (cases "k < length xs")
  case True
  then show ?thesis
    using filter_remove_nth [of k xs P] by (simp del: filter_append)
next
  case False
  then show ?thesis by simp
qed

lemma slotUrl_pending [simp]: "slotUrl (st\<lparr>pending := p\<rparr>) j = slotUrl st j"
  by (simp add: slotUrl_def)

lemma upgrade_inv_removed:
  assumes inv: "upgrade_inv st" and k: "k < length (pending st)"
    and st1: "st1 = st\<lparr>pending := take k (pending st) @ drop (Suc k) (pending st)\<rparr>"
  shows "upgrade_inv st1"
    and "slotUrl st (url_faceIdx (requested (pending st ! k))) = Some (oldUrl (pending st ! k)) \<Longrightarrow>
           matchingFor st1 (url_faceIdx (requested (pending st ! k))) = []"
proof -
  let ?f = "pending st ! k"
  let ?i = "url_faceIdx (requested ?f)"
  let ?P = "\<lambda>j f. url_faceIdx (requested f) = j \<and> slotUrl st j = Some (oldUrl f)"
  have m1: "matchingFor st1 j = filter (?P j) (take k (pending st) @ drop (Suc k) (pending st))" for j
    by (simp add: matchingFor_def st1)
  have p1: "pendingFor st1 j
      = filter (\<lambda>f. url_faceIdx (requested f) = j) (take k (pending st) @ drop (Suc k) (pending st))" for j
    by (simp add: pendingFor_def st1)
  have len: "length (matchingFor st1 j) \<le> length (matchingFor st j)" for j
    unfolding m1 by (simp only: matchingFor_def filter_remove_length)
  have sub: "set (matchingFor st1 j) \<subseteq> set (matchingFor st j)" for j
    unfolding m1 by (simp only: matchingFor_def filter_remove_subset)
  have psub: "set (pendingFor st1 j) \<subseteq> set (pendingFor st j)" for j
    unfolding p1 by (simp only: pendingFor_def filter_remove_subset)
  show "matchingFor st1 ?i = []" if "slotUrl st ?i = Some (oldUrl ?f)"
  proof -
    have "length (matchingFor st1 ?i) = length (matchingFor st ?i) - 1"
      unfolding m1 using filter_remove_nth [OF k, of "?P ?i"] that
      by (simp add: matchingFor_def del: filter_append)
    with upgrade_inv_unfold [OF inv, of ?i] show ?thesis by simp
  qed
  have "length (matchingFor st1 j) \<le> 1 \<and>
        (\<forall>f \<in> set (matchingFor st1 j).
           \<exists>t. slotTexture st1 j = Some t \<and> userData_refreshing t \<and>
               url_zoom (requested f) < userData_zoom t) \<and>
        (\<forall>f \<in> set (pendingFor st1 j).
           oldUrl f = url st1 \<longrightarrow> slotUrl st1 j = None \<or> slotUrl st1 j = Some (url st1))" for j
    using upgrade_inv_unfold [OF inv, of j] len [of j] sub [of j] psub [of j]
    by (auto simp add: st1)
  then show "upgrade_inv st1"
    by (simp add: upgrade_inv_def)
qed

lemma fetchFailed_inv:
  assumes "upgrade_inv st"
  shows "upgrade_inv (fetchFailed k st) \<and> steps_down st (fetchFailed k st)"
proof (cases "k < length (pending st)")
  case False
  with assms show ?thesis by (simp add: fetchFailed_def steps_down_refl)
next
  case True
  let ?st1 = "st\<lparr>pending := take k (pending st) @ drop (Suc k) (pending st)\<rparr>"
  have "slotTexture ?st1 j = slotTexture st j" for j
    by simp
  then have "steps_down st ?st1"
    by (simp add: steps_down_def)
  with upgrade_inv_removed(1) [OF assms True refl] True show ?thesis
    by (simp add: fetchFailed_def)
qed

lemma fetchDone_inv:
  assumes inv: "upgrade_inv st"
  shows "upgrade_inv (snd (fetchDone k st)) \<and> steps_down st (snd (fetchDone k st))"
proof (cases "k < length (pending st)")
  case False
  with assms show ?thesis by (simp add: fetchDone_def steps_down_refl)
next
  case True
  let ?f = "pending st ! k"
  let ?i = "url_faceIdx (requested ?f)"
  let ?st1 = "st\<lparr>pending := take k (pending st) @ drop (Suc k) (pending st)\<rparr>"
  let ?tx = "loadOneTexture_then (requested ?f) ?st1"
  have tex1: "slotTexture ?st1 j = slotTexture st j" for j
    by simp
  note inv1 = upgrade_inv_removed(1) [OF inv True refl]
  have step: "fetchDone k st = refreshFaces_then ?f ?tx ?st1"
    using True by (simp add: fetchDone_def Let_def)
  show ?thesis
  proof (cases rule: refreshFaces_then_cases [where f = ?f and tx = ?tx and st = ?st1])
    case throws
    with inv1 tex1 show ?thesis by (simp add: step steps_down_def)
  next
    case (stale t)
    with inv1 tex1 show ?thesis by (simp add: step steps_down_def)
  next
    case (applied r t)
    from applied(4,5) have tag: "slotUrl st ?i = Some (oldUrl ?f)"
      by (simp add: slotUrl_def)
    then have "?f \<in> set (matchingFor st ?i)"
      using True by (simp add: matchingFor_def)
    with upgrade_inv_unfold [OF inv, of ?i]
    obtain t0 where t0: "slotTexture st ?i = Some t0" and "userData_refreshing t0"
      and better: "url_zoom (requested ?f) < userData_zoom t0"
      by blast
    note empty = upgrade_inv_removed(2) [OF inv True refl tag]
    let ?st2 = "(assignMaterial r ?i \<lparr>map_tex = Some (?tx\<lparr>userData_refreshing := False\<rparr>)\<rparr> ?st1)
                  \<lparr>needsUpdate := True\<rparr>"
    have tex2: "slotTexture ?st2 j =
        (if j = ?i then Some (?tx\<lparr>userData_refreshing := False\<rparr>) else slotTexture st j)" for j
      using slotTexture_installed [OF applied(2,3)] tex1 by simp
    have new: "userData_zoom (?tx\<lparr>userData_refreshing := False\<rparr>) = url_zoom (requested ?f)"
      and newUrl: "userData_url (?tx\<lparr>userData_refreshing := False\<rparr>) = url st"
      by (simp_all add: loadOneTexture_then_def)
    have url2: "url ?st2 = url st"
      by simp
    have urls2: "slotUrl ?st2 j = (if j = ?i then Some (url st) else slotUrl st j)" for j
      by (simp add: slotUrl_def tex2 newUrl)
    have pend2: "pending ?st2 = pending ?st1"
      by simp
    have m2: "matchingFor ?st2 j = (if j = ?i then [] else matchingFor ?st1 j)" for j
    proof (cases "j = ?i")
      case False
      then show ?thesis
        by (simp add: matchingFor_def urls2)
    next
      case same: True
      have "g \<notin> set (matchingFor ?st2 ?i)" for g
      proof
        assume "g \<in> set (matchingFor ?st2 ?i)"
        then have g: "g \<in> set (pending ?st1)" "url_faceIdx (requested g) = ?i" "oldUrl g = url st"
          by (auto simp add: matchingFor_def urls2)
        from g(1) have "g \<in> set (pending st)"
          by (auto dest: in_set_takeD in_set_dropD)
        with g(2) have "g \<in> set (pendingFor st ?i)"
          by (simp add: pendingFor_def)
        with upgrade_inv_unfold [OF inv, of ?i] g(3) tag
        have "oldUrl ?f = url st" by auto
        with g tag have "g \<in> set (matchingFor ?st1 ?i)"
          by (simp add: matchingFor_def)
        with empty show False by simp
      qed
      then have "matchingFor ?st2 ?i = []"
        by (cases "matchingFor ?st2 ?i") auto
      with same show ?thesis by simp
    qed
    have p2: "pendingFor ?st2 j = pendingFor ?st1 j" for j
      by simp
    have "length (matchingFor ?st2 j) \<le> 1 \<and>
          (\<forall>f \<in> set (matchingFor ?st2 j).
             \<exists>t. slotTexture ?st2 j = Some t \<and> userData_refreshing t \<and>
                 url_zoom (requested f) < userData_zoom t) \<and>
          (\<forall>f \<in> set (pendingFor ?st2 j).
             oldUrl f = url ?st2 \<longrightarrow> slotUrl ?st2 j = None \<or> slotUrl ?st2 j = Some (url ?st2))" for j
    proof (cases "j = ?i")
      case True
      then show ?thesis
        unfolding m2 urls2 url2 by simp
    next
      case False
      with upgrade_inv_unfold [OF inv1, of j] show ?thesis
        unfolding m2 urls2 url2 p2 tex2 by (simp add: tex1)
    qed
    then have inv2: "upgrade_inv ?st2"
      unfolding upgrade_inv_def by blast
    have "steps_down st ?st2"
      unfolding steps_down_def
    proof (intro allI impI)
      fix j t'
      assume "slotTexture st j = Some t'"
      with t0 better show "\<exists>t''. slotTexture ?st2 j = Some t'' \<and>
           (userData_zoom t'' < userData_zoom t' \<or> t'' = t' \<or> t'' = t'\<lparr>userData_refreshing := True\<rparr>)"
        by (cases "j = ?i") (simp_all add: tex2 new)
    qed
    with inv2 applied(1) show ?thesis by (simp add: step)
  qed
qed

lemma occur_inv:
  assumes "upgrade_inv st" and "\<not> isNavigation e"
  shows "upgrade_inv (occur th e st) \<and> steps_down st (occur th e st)"
  using assms by (cases e) (simp_all add: refresh_inv fetchDone_inv fetchFailed_inv)

lemma occurAll_inv:
  assumes "upgrade_inv st" and "\<forall>e \<in> set es. \<not> isNavigation e"
  shows "upgrade_inv (occurAll th es st) \<and> not_worse st (occurAll th es st)"
  using assms
proof (induction es arbitrary: st)
  case Nil
  then show ?case by (simp add: not_worse_refl)
next
  case (Cons e es)
  from occur_inv [of st e th] Cons.prems
  have i1: "upgrade_inv (occur th e st)" and d1: "steps_down st (occur th e st)" by simp_all
  from Cons.IH [OF i1] Cons.prems(2)
  have "upgrade_inv (occurAll th es (occur th e st))"
    and "not_worse (occur th e st) (occurAll th es (occur th e st))" by simp_all
  with steps_down_not_worse [OF d1] show ?case
    by (auto intro: not_worse_trans)
qed

lemma upgrade_inv_settled: "settled st \<Longrightarrow> upgrade_inv st"
proof -
  assume s: "settled st"
  then have "matchingFor st i = []" for i
    by (auto simp add: settled_def matchingFor_def filter_empty_conv)
  moreover from s have "\<forall>f \<in> set (pendingFor st i). oldUrl f \<noteq> url st" for i
    by (simp add: settled_def pendingFor_def)
  ultimately show ?thesis
    by (simp add: upgrade_inv_def)
qed

subsection \<open>The number of fetches in flight\<close>

lemma headroom_le: "headroom st j \<le> 1"
  by (simp add: headroom_def split: option.splits)

lemma load_issued:
  assumes "mesh st = Some r" and "slot st i = Some m" and "map_tex m = Some t"
    and "\<not> userData_refreshing t"
  shows "length (pendingFor (issued r i zoom m t st) j) + headroom (issued r i zoom m t st) j
           = length (pendingFor st j) + headroom st j"
proof -
  have "slotTexture st i = Some t"
    using assms(2,3) by (simp add: slotTexture_def)
  with assms(4) show ?thesis
    by (simp add: pendingFor_issued headroom_def slotTexture_issued [OF assms(1,2)])
qed

lemma load_refreshFaces:
  "length (pendingFor (snd (refreshFaces faces zoom st)) j) + headroom (snd (refreshFaces faces zoom st)) j
     = length (pendingFor st j) + headroom st j"
proof (induction faces arbitrary: st)
  case Nil
  show ?case by simp
next
  case (Cons i faces)
  show ?case
  proof (cases rule: refreshFaces_single_cases [where i = i and zoom = zoom and st = st])
    case throws
    then show ?thesis by (simp add: refreshFaces_Cons [of i faces])
  next
    case skips
    with Cons.IH [of st] show ?thesis by (simp add: refreshFaces_Cons [of i faces])
  next
    case (issues r m t)
    from issues(1) have "refreshFaces (i # faces) zoom st = refreshFaces faces zoom (issued r i zoom m t st)"
      by (simp add: refreshFaces_Cons [of i faces])
    with Cons.IH [of "issued r i zoom m t st"] load_issued [OF issues(2,3,4,6), of zoom j]
    show ?thesis by simp
  qed
qed

lemma load_refresh:
  "length (pendingFor (snd (refresh v st)) j) + headroom (snd (refresh v st)) j
     = length (pendingFor st j) + headroom st j"
  by (simp add: refresh_def Let_def load_refreshFaces split: option.splits)

lemma load_fetchFailed:
  "length (pendingFor (fetchFailed k st) j) + headroom (fetchFailed k st) j
     \<le> length (pendingFor st j) + headroom st j"
  using filter_remove_length [of "\<lambda>f. url_faceIdx (requested f) = j" k "pending st"]
  by (simp add: fetchFailed_def pendingFor_def headroom_def)

lemma load_fetchDone:
  "length (pendingFor (snd (fetchDone k st)) j) + headroom (snd (fetchDone k st)) j
     \<le> length (pendingFor st j) + headroom st j"
proof (cases "k < length (pending st)")
  case False
  then show ?thesis by (simp add: fetchDone_def)
next
  case True
  let ?f = "pending st ! k"
  let ?i = "url_faceIdx (requested ?f)"
  let ?st1 = "st\<lparr>pending := take k (pending st) @ drop (Suc k) (pending st)\<rparr>"
  let ?tx = "loadOneTexture_then (requested ?f) ?st1"
  have step: "fetchDone k st = refreshFaces_then ?f ?tx ?st1"
    using True by (simp add: fetchDone_def Let_def)
  have p1: "length (pendingFor ?st1 j) = length (pendingFor st j) - (if j = ?i then 1 else 0)"
    using filter_remove_nth [OF True, of "\<lambda>f. url_faceIdx (requested f) = j"]
    by (auto simp add: pendingFor_def simp del: filter_append)
  have h1: "headroom ?st1 j = headroom st j"
    by (simp add: headroom_def)
  have "?f \<in> set (pendingFor st ?i)"
    using True by (simp add: pendingFor_def)
  then have pos: "0 < length (pendingFor st ?i)"
    by (cases "pendingFor st ?i") simp_all
  show ?thesis
  proof (cases rule: refreshFaces_then_cases [where f = ?f and tx = ?tx and st = ?st1])
    case throws
    with p1 h1 show ?thesis by (simp add: step)
  next
    case (stale t)
    with p1 h1 show ?thesis by (simp add: step)
  next
    case (applied r t)
    let ?st2 = "(assignMaterial r ?i \<lparr>map_tex = Some (?tx\<lparr>userData_refreshing := False\<rparr>)\<rparr> ?st1)
                  \<lparr>needsUpdate := True\<rparr>"
    have tex2: "slotTexture ?st2 j =
        (if j = ?i then Some (?tx\<lparr>userData_refreshing := False\<rparr>) else slotTexture ?st1 j)"
      using slotTexture_installed [OF applied(2,3)] by simp
    have h2: "headroom ?st2 j = (if j = ?i then 1 else headroom st j)"
      unfolding headroom_def tex2 by simp
    have p2: "length (pendingFor ?st2 j) = length (pendingFor st j) - (if j = ?i then 1 else 0)"
      using p1 by simp
    have "length (pendingFor ?st2 j) + headroom ?st2 j \<le> length (pendingFor st j) + headroom st j"
    proof (cases "j = ?i")
      case True
      with pos show ?thesis
        unfolding h2 p2 by simp
    next
      case False
      then show ?thesis
        unfolding h2 p2 by simp
    qed
    with applied(1) show ?thesis by (simp add: step)
  qed
qed

lemma headroom_loadTexture: "headroom (snd (loadTexture th panoramaMetadata st)) j \<le> headroom st j"
proof -
  let ?s1 = "st\<lparr>panorama := meta_panorama panoramaMetadata, url := meta_url panoramaMetadata\<rparr>"
  have st': "snd (loadTexture th panoramaMetadata st) = recreateMeshIfNecessary th ?s1"
    by (simp add: loadTexture_def Let_def)
  have same: "slotTexture (s\<lparr>previousThetaLength := x\<rparr>) j = slotTexture s j" for s x
    by (simp add: slotTexture_def slot_def split: option.splits)
  have s1: "slotTexture ?s1 j = slotTexture st j"
    by (simp add: slotTexture_def slot_def split: option.splits)
  show ?thesis
  proof (cases "strictNotEqual (previousThetaLength ?s1) (element (latitude_size (panorama ?s1)) 0)")
    case True
    then have "slotTexture (recreateMeshIfNecessary th ?s1) j = None"
      by (simp add: recreateMeshIfNecessary_def createMesh_def Let_def slotTexture_def slot_def)
    then show ?thesis
      unfolding st' by (simp add: headroom_def)
  next
    case False
    then have "slotTexture (recreateMeshIfNecessary th ?s1) j = slotTexture st j"
      using same [where s = ?s1] s1 by (simp add: recreateMeshIfNecessary_def Let_def)
    then show ?thesis
      unfolding st' by (simp add: headroom_def)
  qed
qed

lemma pending_loadTexture [simp]:
  "pending (snd (loadTexture th panoramaMetadata st)) = pending st"
  by (simp add: loadTexture_def recreateMeshIfNecessary_def createMesh_def Let_def)

lemma pending_setTexture_loop [simp]: "pending (setTexture_loop is r textures st) = pending st"
  by (induction "is" arbitrary: st) (simp_all add: assignMaterial_def split: option.splits)

lemma load_setTexture:
  "length (pendingFor (snd (setTexture v r textures st)) j) + headroom (snd (setTexture v r textures st)) j
     \<le> length (pendingFor st j) + headroom st j + 1"
proof -
  let ?s = "setTexture_loop [0..<FACES] r textures st"
  have "length (pendingFor ?s j) + headroom ?s j \<le> length (pendingFor st j) + 1"
    using headroom_le [of ?s j] by (simp add: pendingFor_def)
  then show ?thesis
    by (simp add: setTexture_def load_refresh)
qed

lemma load_occur:
  "length (pendingFor (occur th e st) j) + headroom (occur th e st) j
     \<le> length (pendingFor st j) + headroom st j + (if isSetTexture e then 1 else 0)"
proof (cases e)
  case (Refresh v)
  then show ?thesis by (simp add: load_refresh)
next
  case (FetchDone k)
  then show ?thesis by (simp add: load_fetchDone)
next
  case (FetchFailed k)
  then show ?thesis by (simp add: load_fetchFailed)
next
  case (LoadTexture m)
  then show ?thesis
    using headroom_loadTexture [of th m st j] by (simp add: pendingFor_def)
next
  case (SetTexture v ts)
  then show ?thesis
    using load_setTexture [of v "renderer_mesh st" ts st j] by simp
qed

lemma load_occurAll:
  "length (pendingFor (occurAll th es st) j) + headroom (occurAll th es st) j
     \<le> length (pendingFor st j) + headroom st j + length (filter isSetTexture es)"
proof (induction es arbitrary: st)
  case Nil
  show ?case by simp
next
  case (Cons e es)
  from Cons.IH [of "occur th e st"] load_occur [of th e st j]
  show ?case by (simp split: if_splits)
qed

subsection \<open>The example states\<close>

lemma started_eq:
  "started =
     \<lparr>endpoint = ''https://host'',
      panorama = meta_panorama (car 1 ''/pano/1/''),
      url = ''/pano/1/'',
      previousThetaLength = Num 1.6,
      dynamicLoadingEnabled = True,
      mesh = Some 0,
      meshesForFrustum = carGeometries,
      pending = [],
      store = (\<lambda>r. blankMesh)(0 := \<lparr>geometries = carGeometries, material = blank6, psvSphere = True\<rparr>),
      next_ref = 2,
      renderer_mesh = 0,
      renderer_meshContainer = \<lparr>group_ref = 1, children = [0]\<rparr>,
      renderer_scene = [1],
      needsUpdate = False\<rparr>"
  by (simp add: started_def viewerStarted_def createMesh_def Let_def buildGeometries_car
      FACES_def blank6_def eval_nat_numeral)
     (simp add: car_def element_def)

lemma upt_FACES: "[0..<FACES] = [0, 1, 2, 3, 4, 5]"
  by (simp add: FACES_def upt_rec)

lemma started_showing: "started = showing 1 ''/pano/1/'' blank6 [] False"
  by (simp add: showing_def started_eq)

lemma loadTexture_showing:
  "loadTexture flatThree (car n' u') (showing n u ms fs nu) =
     ([\<lparr>url_base = ''https://host'' @ u', url_zoom = 5, url_faceIdx = 0\<rparr>,
       \<lparr>url_base = ''https://host'' @ u', url_zoom = 5, url_faceIdx = 1\<rparr>,
       \<lparr>url_base = ''https://host'' @ u', url_zoom = 5, url_faceIdx = 2\<rparr>,
       \<lparr>url_base = ''https://host'' @ u', url_zoom = 5, url_faceIdx = 3\<rparr>],
      showing n' u' ms fs nu)"
  by (simp add: loadTexture_def recreateMeshIfNecessary_def Let_def showing_def started_eq
      loadOneTexture_def)
     (simp add: car_def element_def)

lemma setTexture_loop_showing:
  assumes "length ms = 6"
  shows "setTexture_loop [0..<FACES] 0 [Some t0, Some t1, Some t2, Some t3] (showing n u ms fs nu)
   = showing n u ([Some \<lparr>map_tex = Some t0\<rparr>, Some \<lparr>map_tex = Some t1\<rparr>,
                   Some \<lparr>map_tex = Some t2\<rparr>, Some \<lparr>map_tex = Some t3\<rparr>] @ drop 4 ms) fs nu"
proof -
  from assms obtain m0 m1 m2 m3 m4 m5 where ms: "ms = [m0, m1, m2, m3, m4, m5]"
    by (auto simp add: length_Suc_conv eval_nat_numeral)
  show ?thesis
    by (simp add: upt_FACES ms assignMaterial_def assign_def showing_def started_eq)
qed

lemma getVisibleFaces_facing0: "getVisibleFaces (facing0 fov) (showing n u ms fs nu) = [0]"
  by (simp add: getVisibleFaces_def facing0_def showing_def started_eq carGeometries_def upt_rec)

lemma refreshFaces_face0:
  "refreshFaces [0] z (showing n u (face u' z' 0 marked # ms) fs nu) =
     (None, if z < z' \<and> \<not> marked
            then showing n u (face u' z' 0 True # ms) (fs @ [(upgradeOf u z 0)\<lparr>oldUrl := u'\<rparr>]) nu
            else showing n u (face u' z' 0 marked # ms) fs nu)"
  by (simp add: refreshFaces_single slot_def showing_def started_eq face_def issued_def
      assignMaterial_def assign_def loadOneTexture_def upgradeOf_def)

lemma showing_fields:
  "mesh (showing n u ms fs nu) = Some 0"
  "material (store (showing n u ms fs nu) 0) = ms"
  "dynamicLoadingEnabled (showing n u ms fs nu)"
  "pending (showing n u ms fs nu) = fs"
  "url (showing n u ms fs nu) = u"
  by (simp_all add: showing_def started_eq)

lemma vFov_facing0: "vFov (facing0 fov) = fov"
  by (simp add: facing0_def)

lemma refresh_facing0:
  "refresh (facing0 fov) (showing n u (face u' z' 0 marked # ms) fs nu) =
     refreshFaces [0] (if fov < 55 then 0 else 2) (showing n u (face u' z' 0 marked # ms) fs nu)"
  by (simp add: refresh_def getVisibleFaces_facing0 Let_def showing_fields vFov_facing0)

lemma images_loaded:
  "map (\<lambda>q. Some (loadOneTexture_then q (showing n' u' ms fs nu)))
     (fst (loadTexture flatThree (car n' u') (showing n u ms fs nu))) = images u'"
  by (simp add: loadTexture_showing loadOneTexture_then_def images_def showing_fields)

lemma renderer_mesh_showing: "renderer_mesh (showing n u ms fs nu) = 0"
  by (simp add: showing_def started_eq)

lemma assigned_showing:
  assumes "length ms = 6"
  shows "setTexture_loop [0..<FACES] 0 (images u') (showing n u ms fs nu) =
     showing n u (face u' 5 0 False # face u' 5 1 False # face u' 5 2 False
                    # face u' 5 3 False # drop 4 ms) fs nu"
  using setTexture_loop_showing [OF assms]
  by (simp add: images_def face_def)

lemma setTexture_showing:
  assumes "length ms = 6"
  shows "setTexture (facing0 fov) 0 (images u) (showing n u ms fs nu) =
     (None, showing n u (face u 5 0 True # face u 5 1 False # face u 5 2 False
                           # face u 5 3 False # drop 4 ms)
              (fs @ [upgradeOf u (if fov < 55 then 0 else 2) 0]) nu)"
  by (simp add: setTexture_def assigned_showing [OF assms] refresh_facing0 refreshFaces_face0
      upgradeOf_def)

lemma slotTexture_showing0:
  "slotTexture (showing n u (face u' z 0 marked # ms) fs nu) 0 =
     Some \<lparr>img = \<lparr>url_base = ''https://host'' @ u', url_zoom = z, url_faceIdx = 0\<rparr>,
           userData_zoom = z, userData_url = u', userData_refreshing = marked\<rparr>"
  by (simp add: slotTexture_def slot_def showing_fields face_def)

lemma fetchDone_showing:
  assumes "k < length fs" and "fs ! k = upgradeOf u z 0"
  shows "fetchDone k (showing n u (face u' z' 0 marked # ms) fs nu) =
     (None, if u' = u
            then showing n u (face u z 0 False # ms) (take k fs @ drop (Suc k) fs) True
            else showing n u (face u' z' 0 marked # ms) (take k fs @ drop (Suc k) fs) nu)"
  using assms
  by (simp add: fetchDone_def Let_def showing_fields refreshFaces_then_def loadOneTexture_then_def
      upgradeOf_def)
     (simp add: showing_def started_eq slot_def face_def assignMaterial_def assign_def)

subsection \<open>The staleness guard\<close>

text \<open>
  Claim C3. An upgrade fetch issued by \<^verbatim>\<open>__refreshFaces\<close> has captured the URL of the
  texture in its slot at request time. When it completes, in whatever state, its
  texture is installed in the slot (unmarked, with a redraw requested and every other
  slot and the fetches in flight untouched) if the texture then in the slot carries the
  captured URL, and otherwise the whole state is left as it was.
\<close>

theorem stale_upgrade_discarded:
  assumes "refreshFaces faces zoom st0 = (e0, st1)"
    and "f \<in> set (drop (length (pending st0)) (pending st1))"
    and "i = url_faceIdx (requested f)"
    and "refreshFaces_then f tx st = (e, st')"
  shows "slotUrl st0 i = Some (oldUrl f) \<and>
         (if slotUrl st i = Some (oldUrl f)
          then e = None \<and>
               slotTexture st' i = Some (tx\<lparr>userData_refreshing := False\<rparr>) \<and>
               (\<forall>j. j \<noteq> i \<longrightarrow> slot st' j = slot st j) \<and>
               pending st' = pending st \<and>
               needsUpdate st'
          else st' = st)"
proof -
  from refreshFaces_requests [of zoom st0 faces] assms(1)
  obtain new where "requests zoom st0 st1 new" by auto
  then have "pending st1 = pending st0 @ new"
    and "\<forall>f \<in> set new. \<exists>t. slotTexture st0 (url_faceIdx (requested f)) = Some t \<and>
            oldUrl f = userData_url t"
    by (auto simp add: requests_def)
  with assms(2,3) have captured: "slotUrl st0 i = Some (oldUrl f)"
    by (auto simp add: slotUrl_def)
  have "if slotUrl st i = Some (oldUrl f)
          then e = None \<and>
               slotTexture st' i = Some (tx\<lparr>userData_refreshing := False\<rparr>) \<and>
               (\<forall>j. j \<noteq> i \<longrightarrow> slot st' j = slot st j) \<and>
               pending st' = pending st \<and>
               needsUpdate st'
          else st' = st"
  proof (cases rule: refreshFaces_then_cases [where f = f and tx = tx and st = st])
    case throws
    with assms(3,4) show ?thesis by (simp add: slotUrl_def)
  next
    case (stale t)
    with assms(3,4) show ?thesis by (simp add: slotUrl_def)
  next
    case (applied r t)
    from applied(1) assms(4) have e: "e = None"
      and st': "st' = (assignMaterial r i \<lparr>map_tex = Some (tx\<lparr>userData_refreshing := False\<rparr>)\<rparr> st)
                        \<lparr>needsUpdate := True\<rparr>"
      by (simp_all add: assms(3))
    from applied(2,3) have "slotTexture st' j =
        (if j = i then Some (tx\<lparr>userData_refreshing := False\<rparr>) else slotTexture st j)"
      and "slot st' j = (if j = i then Some \<lparr>map_tex = Some (tx\<lparr>userData_refreshing := False\<rparr>)\<rparr>
                         else slot st j)" for j
      unfolding st' assms(3)
      by (simp_all only: slotTexture_installed slot_installed)
    moreover have "pending st' = pending st" and "needsUpdate st'"
      by (simp_all add: st')
    ultimately show ?thesis
      using e applied(4,5) by (simp add: slotUrl_def assms(3))
  qed
  with captured show ?thesis by simp
qed

theorem stale_upgrade_discarded_witness:
  "slotTexture (snd (refreshFaces_then (upgradeOf ''/pano/1/'' 2 0)
       (loadOneTexture_then (requested (upgradeOf ''/pano/1/'' 2 0))
          (showing 1 ''/pano/1/'' (face ''/pano/1/'' 5 0 True # drop 1 (fresh ''/pano/1/'')) [] False))
       (showing 1 ''/pano/1/'' (face ''/pano/1/'' 5 0 True # drop 1 (fresh ''/pano/1/'')) [] False))) 0
     = Some \<lparr>img = \<lparr>url_base = ''https://host/pano/1/'', url_zoom = 2, url_faceIdx = 0\<rparr>,
             userData_zoom = 2, userData_url = ''/pano/1/'', userData_refreshing = False\<rparr> \<and>
   snd (refreshFaces_then (upgradeOf ''/pano/1/'' 2 0)
       (loadOneTexture_then (requested (upgradeOf ''/pano/1/'' 2 0))
          (showing 2 ''/pano/2/'' (fresh ''/pano/2/'') [] False))
       (showing 2 ''/pano/2/'' (fresh ''/pano/2/'') [] False))
     = showing 2 ''/pano/2/'' (fresh ''/pano/2/'') [] False"
proof -
  let ?f = "upgradeOf ''/pano/1/'' 2 0"
  let ?st0 = "showing 1 ''/pano/1/'' (fresh ''/pano/1/'') [] False"
  let ?st1 = "showing 1 ''/pano/1/'' (face ''/pano/1/'' 5 0 True # drop 1 (fresh ''/pano/1/'')) [] False"
  let ?st2 = "showing 2 ''/pano/2/'' (fresh ''/pano/2/'') [] False"
  have request: "refreshFaces [0] 2 ?st0 =
      (None, showing 1 ''/pano/1/'' (face ''/pano/1/'' 5 0 True # drop 1 (fresh ''/pano/1/'')) [?f] False)"
    by (simp add: fresh_def refreshFaces_face0 upgradeOf_def)
  have sent: "?f \<in> set (drop (length (pending ?st0))
      (pending (showing 1 ''/pano/1/'' (face ''/pano/1/'' 5 0 True # drop 1 (fresh ''/pano/1/'')) [?f] False)))"
    by (simp add: showing_fields)
  have i: "0 = url_faceIdx (requested ?f)"
    by (simp add: upgradeOf_def)
  have same: "slotUrl ?st1 0 = Some (oldUrl ?f)"
    by (simp add: slotUrl_def slotTexture_showing0 upgradeOf_def)
  have other: "slotUrl ?st2 0 \<noteq> Some (oldUrl ?f)"
    by (simp add: slotUrl_def fresh_def slotTexture_showing0 upgradeOf_def)
  from stale_upgrade_discarded [where tx = "loadOneTexture_then (requested ?f) ?st1" and st = ?st1,
      OF request sent i surjective_pairing] same
  have a: "slotTexture (snd (refreshFaces_then ?f (loadOneTexture_then (requested ?f) ?st1) ?st1)) 0
      = Some ((loadOneTexture_then (requested ?f) ?st1)\<lparr>userData_refreshing := False\<rparr>)"
    by simp
  from stale_upgrade_discarded [where tx = "loadOneTexture_then (requested ?f) ?st2" and st = ?st2,
      OF request sent i surjective_pairing] other
  have b: "snd (refreshFaces_then ?f (loadOneTexture_then (requested ?f) ?st2) ?st2) = ?st2"
    by simp
  from a b show ?thesis
    by (simp add: loadOneTexture_then_def upgradeOf_def showing_fields)
qed

subsection \<open>Upgrades in flight and levels\<close>

lemma pendingFor_append:
  "pending st' = pending st @ new \<Longrightarrow>
   pendingFor st' i = pendingFor st i @ filter (\<lambda>f. url_faceIdx (requested f) = i) new"
  by (simp add: pendingFor_def)

lemma marked_unchanged:
  assumes "requests zoom st st' new" and "slotTexture st i = Some t"
    and "userData_refreshing t \<or> userData_zoom t \<le> zoom"
  shows "slotTexture st' i = Some t \<and> pendingFor st' i = pendingFor st i"
proof -
  have none: "url_faceIdx (requested f) \<noteq> i" if "f \<in> set new" for f
  proof
    assume "url_faceIdx (requested f) = i"
    with assms(1) that obtain t' where "slotTexture st i = Some t'"
      and "\<not> userData_refreshing t'" and "zoom < userData_zoom t'"
      by (auto simp add: requests_def)
    with assms(2,3) show False by auto
  qed
  then have "filter (\<lambda>f. url_faceIdx (requested f) = i) new = []"
    by (simp add: filter_empty_conv)
  moreover from assms(1) have "pending st' = pending st @ new"
    by (simp add: requests_def)
  moreover from assms(1) none have "slotTexture st' i = slotTexture st i"
    unfolding requests_def by blast
  ultimately show ?thesis
    using assms(2) by (simp add: pendingFor_append)
qed

lemma refreshFaces_single_noop:
  assumes "slotTexture st i = Some t" and "userData_refreshing t \<or> userData_zoom t \<le> zoom"
  shows "refreshFaces [i] zoom st = (None, st)"
proof (cases rule: refreshFaces_single_cases [where i = i and zoom = zoom and st = st])
  case throws
  with assms(1) show ?thesis by (auto simp add: slotTexture_def slot_def)
next
  case skips
  then show ?thesis .
next
  case (issues r m t')
  with assms show ?thesis by (auto simp add: slotTexture_def)
qed

text \<open>
  Claim C8, amended. For every face and from every state: the number of upgrade fetches
  in flight for the face, plus one if its slot holds an unmarked texture, never grows as
  long as \<^verbatim>\<open>setTexture\<close> does not run, and grows by at most one at each call of
  \<^verbatim>\<open>setTexture\<close>, whose textures replace marked ones while the fetches of those are
  still in flight. So from a state with no fetch in flight for the face, at most one is
  in flight until \<^verbatim>\<open>setTexture\<close> runs next. In every state, a call of
  \<^verbatim>\<open>__refreshFaces\<close> leaves a marked slot and the fetches of its face as they are (a
  request for that face alone changes nothing at all), and it marks exactly the slots it
  issues a fetch for, which were unmarked.
\<close>

theorem one_upgrade_in_flight:
  assumes "st' = snd (refreshFaces faces zoom st)"
    and "new = drop (length (pending st)) (pending st')"
  shows "length (pendingFor (occurAll th es st0) i) + headroom (occurAll th es st0) i
           \<le> length (pendingFor st0 i) + headroom st0 i + length (filter isSetTexture es) \<and>
         (pendingFor st0 i = [] \<and> (\<forall>e \<in> set es. \<not> isSetTexture e) \<longrightarrow>
            length (pendingFor (occurAll th es st0) i) \<le> 1) \<and>
         pending st' = pending st @ new \<and>
         (\<forall>t. slotTexture st i = Some t \<and> userData_refreshing t \<longrightarrow>
              slotTexture st' i = Some t \<and> pendingFor st' i = pendingFor st i \<and>
              refreshFaces [i] zoom st = (None, st)) \<and>
         ((\<exists>f \<in> set new. url_faceIdx (requested f) = i) \<or> slotTexture st' i = slotTexture st i) \<and>
         (\<forall>f \<in> set new.
            \<exists>t. slotTexture st (url_faceIdx (requested f)) = Some t \<and>
                \<not> userData_refreshing t \<and>
                slotTexture st' (url_faceIdx (requested f)) = Some (t\<lparr>userData_refreshing := True\<rparr>))"
proof -
  note load = load_occurAll [of th es st0 i]
  have one: "length (pendingFor (occurAll th es st0) i) \<le> 1"
    if "pendingFor st0 i = []" and "\<forall>e \<in> set es. \<not> isSetTexture e"
  proof -
    from that(2) have "filter isSetTexture es = []"
      by (simp add: filter_empty_conv)
    with load that(1) headroom_le [of st0 i] show ?thesis by simp
  qed
  from refreshFaces_requests [of zoom st faces] assms(1)
  obtain new' where r: "requests zoom st st' new'" by auto
  with requests_new [OF r] assms(2) have r: "requests zoom st st' new" by simp
  have "slotTexture st' i = Some t \<and> pendingFor st' i = pendingFor st i \<and>
        refreshFaces [i] zoom st = (None, st)"
    if "slotTexture st i = Some t" and "userData_refreshing t" for t
    using marked_unchanged [OF r that(1)] refreshFaces_single_noop [OF that(1)] that(2) by simp
  moreover from r have "pending st' = pending st @ new"
    and "(\<exists>f \<in> set new. url_faceIdx (requested f) = i) \<or> slotTexture st' i = slotTexture st i"
    and "\<forall>f \<in> set new.
            \<exists>t. slotTexture st (url_faceIdx (requested f)) = Some t \<and>
                \<not> userData_refreshing t \<and>
                slotTexture st' (url_faceIdx (requested f)) = Some (t\<lparr>userData_refreshing := True\<rparr>)"
    unfolding requests_def by blast+
  ultimately show ?thesis
    using load one by blast
qed

text \<open>
  Claim C9, amended. Take a state in which, for every face, at most one fetch in flight
  has captured the URL of the texture in the slot, the slot is then marked and coarser
  than the level requested, and no fetch in flight that captured the URL the adapter
  holds finds a texture of another URL in the slot; a state in which no fetch in flight
  has captured the adapter's URL or the URL of the texture in its slot is one. As long
  as neither \<^verbatim>\<open>loadTexture\<close> nor \<^verbatim>\<open>setTexture\<close> runs, the state stays of this kind
  and the level of a slot never rises: after any further events it is at most what it
  was, and a single event keeps the texture (up to the mark) or installs a strictly
  smaller level. In every state, a refresh whose target is not below the level of a slot
  leaves the slot and the fetches of its face alone, and every fetch that is issued
  requests a level strictly below the one of its slot.
\<close>

theorem levels_only_improve:
  assumes "st' = snd (refreshFaces faces zoom st)"
    and "new = drop (length (pending st)) (pending st')"
  shows "(upgrade_inv st0 \<and> (\<forall>e \<in> set es. \<not> isNavigation e) \<and> \<not> isNavigation e \<and>
          slotTexture st0 i = Some t \<longrightarrow>
            upgrade_inv (occurAll th es st0) \<and>
            (\<exists>t2. slotTexture (occurAll th es st0) i = Some t2 \<and> userData_zoom t2 \<le> userData_zoom t) \<and>
            (\<exists>t'. slotTexture (occur th e st0) i = Some t' \<and>
                 (userData_zoom t' < userData_zoom t \<or> t' = t \<or>
                  t' = t\<lparr>userData_refreshing := True\<rparr>))) \<and>
         (settled st0 \<longrightarrow> upgrade_inv st0) \<and>
         (\<forall>t. slotTexture st i = Some t \<and> userData_zoom t \<le> zoom \<longrightarrow>
              slotTexture st' i = Some t \<and> pendingFor st' i = pendingFor st i \<and>
              refreshFaces [i] zoom st = (None, st)) \<and>
         (\<forall>f \<in> set new.
            \<exists>t. slotTexture st (url_faceIdx (requested f)) = Some t \<and>
                url_zoom (requested f) < userData_zoom t)"
proof -
  have a: "upgrade_inv (occurAll th es st0) \<and>
          (\<exists>t2. slotTexture (occurAll th es st0) i = Some t2 \<and> userData_zoom t2 \<le> userData_zoom t) \<and>
          (\<exists>t'. slotTexture (occur th e st0) i = Some t' \<and>
               (userData_zoom t' < userData_zoom t \<or> t' = t \<or>
                t' = t\<lparr>userData_refreshing := True\<rparr>))"
    if inv: "upgrade_inv st0" and es: "\<forall>e \<in> set es. \<not> isNavigation e"
      and e: "\<not> isNavigation e" and t: "slotTexture st0 i = Some t"
  proof -
    from occurAll_inv [OF inv es, of th]
    have "upgrade_inv (occurAll th es st0)" and "not_worse st0 (occurAll th es st0)"
      by simp_all
    moreover from occur_inv [OF inv e, of th]
    have "steps_down st0 (occur th e st0)" by simp
    ultimately show ?thesis
      using t by (simp add: not_worse_def steps_down_def)
  qed
  from refreshFaces_requests [of zoom st faces] assms(1)
  obtain new' where r: "requests zoom st st' new'" by auto
  with requests_new [OF r] assms(2) have r: "requests zoom st st' new" by simp
  have c: "slotTexture st' i = Some t \<and> pendingFor st' i = pendingFor st i \<and>
        refreshFaces [i] zoom st = (None, st)"
    if "slotTexture st i = Some t" and "userData_zoom t \<le> zoom" for t
    using marked_unchanged [OF r that(1)] refreshFaces_single_noop [OF that(1)] that(2) by simp
  from r have d: "\<forall>f \<in> set new.
            \<exists>t. slotTexture st (url_faceIdx (requested f)) = Some t \<and>
                url_zoom (requested f) < userData_zoom t"
    unfolding requests_def by fastforce
  from a c d upgrade_inv_settled [of st0] show ?thesis by blast
qed

subsection \<open>The statements on the example states\<close>

lemma displayed_reached:
  "setTexture_loop [0..<FACES] 0 (images ''/pano/1/'')
     (occur flatThree (LoadTexture (car 1 ''/pano/1/'')) started) = displayed"
  by (simp add: started_showing loadTexture_showing assigned_showing blank6_def
      displayed_def fresh_def)

lemma arrived_reached:
  "setTexture_loop [0..<FACES] 0 (images ''/pano/2/'')
     (occurAll flatThree
        [LoadTexture (car 1 ''/pano/1/''), SetTexture (facing0 65) (images ''/pano/1/''),
         LoadTexture (car 2 ''/pano/2/'')] started) = arrived"
  by (simp add: started_showing loadTexture_showing setTexture_showing renderer_mesh_showing
      assigned_showing blank6_def arrived_def fresh_def)

lemma settled_displayed: "settled displayed"
  by (simp add: settled_def displayed_def showing_fields)

lemma arrived_refresh: "occurAll flatThree [Refresh (facing0 65)] arrived = arrivedUpgrading"
  by (simp add: arrived_def arrivedUpgrading_def fresh_def refresh_facing0 refreshFaces_face0
      upgradeOf_def)

lemma arrivedUpgrading_slot0:
  "slotTexture arrivedUpgrading 0 =
     Some \<lparr>img = \<lparr>url_base = ''https://host'' @ ''/pano/2/'', url_zoom = 5, url_faceIdx = 0\<rparr>,
           userData_zoom = 5, userData_url = ''/pano/2/'', userData_refreshing = True\<rparr>"
  unfolding arrivedUpgrading_def by (rule slotTexture_showing0)

lemma displayed_refresh: "occurAll flatThree [Refresh (facing0 65)] displayed = upgrading"
  by (simp add: displayed_def upgrading_def fresh_def refresh_facing0 refreshFaces_face0 upgradeOf_def)

lemma upgrading_slot0:
  "slotTexture upgrading 0 =
     Some \<lparr>img = \<lparr>url_base = ''https://host'' @ ''/pano/1/'', url_zoom = 5, url_faceIdx = 0\<rparr>,
           userData_zoom = 5, userData_url = ''/pano/1/'', userData_refreshing = True\<rparr>"
  unfolding upgrading_def by (rule slotTexture_showing0)

lemma upgrading_done: "occurAll flatThree [FetchDone 0] upgrading = upgraded"
  by (simp add: upgrading_def upgraded_def fetchDone_showing)

lemma displayed_slot0:
  "slotTexture displayed 0 =
     Some \<lparr>img = \<lparr>url_base = ''https://host'' @ ''/pano/1/'', url_zoom = 5, url_faceIdx = 0\<rparr>,
           userData_zoom = 5, userData_url = ''/pano/1/'', userData_refreshing = False\<rparr>"
  unfolding displayed_def fresh_def by (rule slotTexture_showing0)

lemma displayed_upgraded:
  "occurAll flatThree [Refresh (facing0 65), FetchDone 0] displayed = upgraded"
  using displayed_refresh upgrading_done by simp

lemma displayed_step: "occur flatThree (Refresh (facing0 65)) displayed = upgrading"
  using displayed_refresh by simp

lemma arrivedUpgrading_widened:
  "refreshFaces [0, 1] 2 arrivedUpgrading =
     (None, showing 2 ''/pano/2/''
        (face ''/pano/2/'' 5 0 True # face ''/pano/2/'' 5 1 True # drop 2 (fresh ''/pano/2/''))
        [upgradeOf ''/pano/1/'' 2 0, upgradeOf ''/pano/2/'' 2 0, upgradeOf ''/pano/2/'' 2 1] False)"
  by (simp add: refreshFaces.simps(2) arrivedUpgrading_def fresh_def slot_def showing_def started_eq
      face_def assignMaterial_def assign_def loadOneTexture_def upgradeOf_def)

lemma upgraded_slot0:
  "slotTexture upgraded 0 =
     Some \<lparr>img = \<lparr>url_base = ''https://host'' @ ''/pano/1/'', url_zoom = 2, url_faceIdx = 0\<rparr>,
           userData_zoom = 2, userData_url = ''/pano/1/'', userData_refreshing = False\<rparr>"
  unfolding upgraded_def by (rule slotTexture_showing0)

lemma upgraded_widened:
  "refreshFaces [0, 1] 2 upgraded =
     (None, showing 1 ''/pano/1/''
        (face ''/pano/1/'' 2 0 False # face ''/pano/1/'' 5 1 True # drop 2 (fresh ''/pano/1/''))
        [upgradeOf ''/pano/1/'' 2 1] True)"
  by (simp add: refreshFaces.simps(2) upgraded_def fresh_def slot_def showing_def started_eq
      face_def assignMaterial_def assign_def loadOneTexture_def upgradeOf_def)

theorem one_upgrade_in_flight_witness:
  "length (pendingFor upgrading 0) \<le> 1 \<and>
   length (pendingFor arrivedUpgrading 0) + headroom arrivedUpgrading 0 \<le> 2 \<and>
   refreshFaces [0] 2 arrivedUpgrading = (None, arrivedUpgrading) \<and>
   pending (snd (refreshFaces [0, 1] 2 arrivedUpgrading))
     = pending arrivedUpgrading @ [upgradeOf ''/pano/2/'' 2 1]"
proof -
  have n: "\<forall>e \<in> set [Refresh (facing0 65)]. \<not> isSetTexture e"
    by simp
  have p: "pendingFor displayed 0 = []"
    by (simp add: displayed_def pendingFor_def showing_fields)
  have q: "length (pendingFor arrived 0) + headroom arrived 0 = 2"
    by (simp add: arrived_def pendingFor_def showing_fields upgradeOf_def headroom_def
        fresh_def slotTexture_showing0)
  have w: "drop (length (pending arrivedUpgrading)) (pending (snd (refreshFaces [0, 1] 2 arrivedUpgrading)))
             = [upgradeOf ''/pano/2/'' 2 1]"
  proof -
    have "pending (snd (refreshFaces [0, 1] 2 arrivedUpgrading))
            = [upgradeOf ''/pano/1/'' 2 0, upgradeOf ''/pano/2/'' 2 0, upgradeOf ''/pano/2/'' 2 1]"
      by (simp only: arrivedUpgrading_widened snd_conv showing_fields)
    moreover have "length (pending arrivedUpgrading) = 2"
      by (simp add: arrivedUpgrading_def showing_fields)
    ultimately show ?thesis by simp
  qed
  from one_upgrade_in_flight [OF refl refl, where ?st0.0 = displayed and es = "[Refresh (facing0 65)]"
      and th = flatThree and i = 0 and st = arrivedUpgrading and faces = "[0, 1]" and zoom = 2] n p
  have a: "length (pendingFor upgrading 0) \<le> 1"
    by (simp only: displayed_refresh)
  from one_upgrade_in_flight [OF refl refl, where ?st0.0 = arrived and es = "[Refresh (facing0 65)]"
      and th = flatThree and i = 0 and st = arrivedUpgrading and faces = "[0, 1]" and zoom = 2]
    arrivedUpgrading_slot0 q
  have b: "length (pendingFor arrivedUpgrading 0) + headroom arrivedUpgrading 0 \<le> 2 \<and>
           refreshFaces [0] 2 arrivedUpgrading = (None, arrivedUpgrading) \<and>
           pending (snd (refreshFaces [0, 1] 2 arrivedUpgrading))
             = pending arrivedUpgrading
               @ drop (length (pending arrivedUpgrading)) (pending (snd (refreshFaces [0, 1] 2 arrivedUpgrading)))"
    by (simp only: arrived_refresh) simp
  from a b show ?thesis
    unfolding w by blast
qed

text \<open>
  As stated, claim C8 fails across a navigation: the fetch for face 0 of the panorama
  left behind is still in flight when \<^verbatim>\<open>setTexture\<close> refreshes the new textures and
  issues another fetch for face 0.
\<close>

theorem one_upgrade_in_flight_counterexample:
  "\<not> length (pendingFor (occurAll flatThree
        [LoadTexture (car 1 ''/pano/1/''), SetTexture (facing0 65) (images ''/pano/1/''),
         LoadTexture (car 2 ''/pano/2/''), SetTexture (facing0 65) (images ''/pano/2/'')]
        started) 0) \<le> 1"
  by (simp add: started_showing loadTexture_showing setTexture_showing renderer_mesh_showing blank6_def
      showing_fields pendingFor_def upgradeOf_def)

theorem levels_only_improve_witness:
  "(\<exists>t2. slotTexture upgraded 0 = Some t2 \<and> userData_zoom t2 \<le> 5) \<and>
   upgrade_inv upgraded \<and>
   (\<exists>t'. slotTexture upgrading 0 = Some t' \<and> userData_zoom t' = 5 \<and> userData_refreshing t') \<and>
   refreshFaces [0] 2 upgraded = (None, upgraded) \<and>
   pending (snd (refreshFaces [0, 1] 2 upgraded)) = [upgradeOf ''/pano/1/'' 2 1]"
proof -
  have n: "\<forall>e \<in> set [Refresh (facing0 65), FetchDone 0]. \<not> isNavigation e"
    "\<not> isNavigation (Refresh (facing0 65))"
    by simp_all
  from levels_only_improve [OF refl refl, where ?st0.0 = displayed
      and es = "[Refresh (facing0 65), FetchDone 0]" and e = "Refresh (facing0 65)"
      and th = flatThree and i = 0 and st = upgraded and faces = "[0, 1]" and zoom = 2]
    settled_displayed n displayed_slot0 upgraded_slot0
  have x: "(\<exists>t2. slotTexture upgraded 0 = Some t2 \<and> userData_zoom t2 \<le> 5) \<and>
        upgrade_inv upgraded \<and> refreshFaces [0] 2 upgraded = (None, upgraded)"
    by (simp only: displayed_upgraded displayed_step) simp
  have y: "\<exists>t'. slotTexture upgrading 0 = Some t' \<and> userData_zoom t' = 5 \<and> userData_refreshing t'"
    by (simp add: upgrading_slot0)
  have w: "pending (snd (refreshFaces [0, 1] 2 upgraded)) = [upgradeOf ''/pano/1/'' 2 1]"
    by (simp only: upgraded_widened snd_conv showing_fields)
  from x y w show ?thesis by blast
qed

text \<open>
  As stated, claim C9 fails when a panorama is shown again while a fetch of its earlier
  display is still in flight: the stale result carries the same URL, passes the identity
  check and replaces level 0 by level 2, with the URL the adapter holds unchanged and
  neither \<^verbatim>\<open>loadTexture\<close> nor \<^verbatim>\<open>setTexture\<close> in between.
\<close>

theorem levels_only_improve_counterexample:
  "map_option userData_zoom (slotTexture (occurAll flatThree
        [LoadTexture (car 1 ''/pano/1/''), SetTexture (facing0 65) (images ''/pano/1/''),
         LoadTexture (car 2 ''/pano/2/''), SetTexture (facing0 65) (images ''/pano/2/''),
         LoadTexture (car 1 ''/pano/1/''), SetTexture (facing0 40) (images ''/pano/1/''),
         FetchDone 2] started) 0) = Some 0 \<and>
   map_option userData_zoom (slotTexture (occurAll flatThree
        [LoadTexture (car 1 ''/pano/1/''), SetTexture (facing0 65) (images ''/pano/1/''),
         LoadTexture (car 2 ''/pano/2/''), SetTexture (facing0 65) (images ''/pano/2/''),
         LoadTexture (car 1 ''/pano/1/''), SetTexture (facing0 40) (images ''/pano/1/''),
         FetchDone 2,
         FetchDone 0] started) 0) = Some 2 \<and>
   slotUrl (occurAll flatThree
        [LoadTexture (car 1 ''/pano/1/''), SetTexture (facing0 65) (images ''/pano/1/''),
         LoadTexture (car 2 ''/pano/2/''), SetTexture (facing0 65) (images ''/pano/2/''),
         LoadTexture (car 1 ''/pano/1/''), SetTexture (facing0 40) (images ''/pano/1/'')]
        started) 0 = Some ''/pano/1/'' \<and>
   slotUrl (occurAll flatThree
        [LoadTexture (car 1 ''/pano/1/''), SetTexture (facing0 65) (images ''/pano/1/''),
         LoadTexture (car 2 ''/pano/2/''), SetTexture (facing0 65) (images ''/pano/2/''),
         LoadTexture (car 1 ''/pano/1/''), SetTexture (facing0 40) (images ''/pano/1/''),
         FetchDone 2] started) 0 = Some ''/pano/1/'' \<and>
   slotUrl (occurAll flatThree
        [LoadTexture (car 1 ''/pano/1/''), SetTexture (facing0 65) (images ''/pano/1/''),
         LoadTexture (car 2 ''/pano/2/''), SetTexture (facing0 65) (images ''/pano/2/''),
         LoadTexture (car 1 ''/pano/1/''), SetTexture (facing0 40) (images ''/pano/1/''),
         FetchDone 2,
         FetchDone 0] started) 0 = Some ''/pano/1/''"
proof -
  let ?rest = "[face ''/pano/1/'' 5 1 False, face ''/pano/1/'' 5 2 False, face ''/pano/1/'' 5 3 False,
                Some \<lparr>map_tex = None\<rparr>, Some \<lparr>map_tex = None\<rparr>]"
  have s3: "occurAll flatThree
        [LoadTexture (car 1 ''/pano/1/''), SetTexture (facing0 65) (images ''/pano/1/''),
         LoadTexture (car 2 ''/pano/2/''), SetTexture (facing0 65) (images ''/pano/2/''),
         LoadTexture (car 1 ''/pano/1/''), SetTexture (facing0 40) (images ''/pano/1/'')] started
      = showing 1 ''/pano/1/'' (face ''/pano/1/'' 5 0 True # ?rest)
          [upgradeOf ''/pano/1/'' 2 0, upgradeOf ''/pano/2/'' 2 0, upgradeOf ''/pano/1/'' 0 0] False"
    by (simp add: started_showing loadTexture_showing setTexture_showing renderer_mesh_showing blank6_def)
  have s4: "snd (fetchDone 2 (showing 1 ''/pano/1/'' (face ''/pano/1/'' 5 0 True # ?rest)
          [upgradeOf ''/pano/1/'' 2 0, upgradeOf ''/pano/2/'' 2 0, upgradeOf ''/pano/1/'' 0 0] False))
      = showing 1 ''/pano/1/'' (face ''/pano/1/'' 0 0 False # ?rest)
          [upgradeOf ''/pano/1/'' 2 0, upgradeOf ''/pano/2/'' 2 0] True"
    by (simp add: fetchDone_showing)
  have s5: "snd (fetchDone 0 (showing 1 ''/pano/1/'' (face ''/pano/1/'' 0 0 False # ?rest)
          [upgradeOf ''/pano/1/'' 2 0, upgradeOf ''/pano/2/'' 2 0] True))
      = showing 1 ''/pano/1/'' (face ''/pano/1/'' 2 0 False # ?rest)
          [upgradeOf ''/pano/2/'' 2 0] True"
    by (simp add: fetchDone_showing)
  have a: "occurAll flatThree
        [LoadTexture (car 1 ''/pano/1/''), SetTexture (facing0 65) (images ''/pano/1/''),
         LoadTexture (car 2 ''/pano/2/''), SetTexture (facing0 65) (images ''/pano/2/''),
         LoadTexture (car 1 ''/pano/1/''), SetTexture (facing0 40) (images ''/pano/1/''),
         FetchDone 2] started
      = showing 1 ''/pano/1/'' (face ''/pano/1/'' 0 0 False # ?rest)
          [upgradeOf ''/pano/1/'' 2 0, upgradeOf ''/pano/2/'' 2 0] True"
    using s3 s4 by simp
  have b: "occurAll flatThree
        [LoadTexture (car 1 ''/pano/1/''), SetTexture (facing0 65) (images ''/pano/1/''),
         LoadTexture (car 2 ''/pano/2/''), SetTexture (facing0 65) (images ''/pano/2/''),
         LoadTexture (car 1 ''/pano/1/''), SetTexture (facing0 40) (images ''/pano/1/''),
         FetchDone 2,
         FetchDone 0] started
      = showing 1 ''/pano/1/'' (face ''/pano/1/'' 2 0 False # ?rest)
          [upgradeOf ''/pano/2/'' 2 0] True"
    using s3 s4 s5 by simp
  show ?thesis
    unfolding a b s3 by (simp add: slotTexture_showing0 slotUrl_def)
qed


lemma allocated_loadTexture:
  assumes "allocated st"
  shows "allocated (snd (loadTexture th panoramaMetadata st))"
proof -
  let ?s1 = "st\<lparr>panorama := meta_panorama panoramaMetadata, url := meta_url panoramaMetadata\<rparr>"
  have st': "snd (loadTexture th panoramaMetadata st) = recreateMeshIfNecessary th ?s1"
    by (simp add: loadTexture_def Let_def)
  show ?thesis
  proof (cases "strictNotEqual (previousThetaLength ?s1) (element (latitude_size (panorama ?s1)) 0)")
    case True
    have "\<forall>r \<in> set (renderer_scene st). r < next_ref st" and "distinct (renderer_scene st)"
      using assms by (simp_all add: allocated_def)
    then have "\<forall>r \<in> set (remove1 (group_ref (renderer_meshContainer st)) (renderer_scene st)).
                 r < Suc (Suc (next_ref st)) \<and> r \<noteq> Suc (next_ref st)"
      and "distinct (remove1 (group_ref (renderer_meshContainer st)) (renderer_scene st))"
      by (auto dest: notin_set_remove1)
    then show ?thesis
      unfolding st' recreate_rebuilt [OF True] by (auto simp add: allocated_def)
  next
    case False
    with assms show ?thesis
      unfolding st' by (simp add: recreate_same allocated_def)
  qed
qed


end
